theory Spec2Isabelle
  imports Main "HOL-Library.Word" "HOL-Library.Sublist"
begin

section \<open>The instrumented HTTP client of git-lfs (lfs/http.go)\<close>

text \<open>
  A shallow embedding of \<^verbatim>\<open>lfs/http.go\<close>: the redirect policy \<^verbatim>\<open>checkRedirect\<close>, the
  trace dump with its redaction of Basic credentials, the byte-counting body wrapper
  \<^verbatim>\<open>countingReadCloser\<close>, the client's \<^verbatim>\<open>Do\<close>, and the two process-wide registries
  \<^verbatim>\<open>httpTransfers\<close> and \<^verbatim>\<open>httpTransferBuckets\<close> with the report \<^verbatim>\<open>LogHttpStats\<close>.

  Conventions of the model.
  \<^item> Go's \<^verbatim>\<open>int\<close> is a 64-bit word; \<^verbatim>\<open>+=\<close> wraps as the machine does.
  \<^item> A \<^verbatim>\<open>time.Time\<close> is a number of nanoseconds counted from the zero \<^verbatim>\<open>Time\<close>, so the
    zero value is \<open>0\<close>. Each call of \<^verbatim>\<open>time.Now()\<close> is an argument of the function that
    makes it.
  \<^item> A \<^verbatim>\<open>*http.Response\<close> is an address; the registries are keyed by it.
  \<^item> A Go map is a partial function. \<^verbatim>\<open>range\<close> over a map visits every key once, in an
    order the language leaves unspecified: the order of one such loop is an argument
    of the function that runs it, constrained by \<open>range_order\<close>.
  \<^item> A runtime panic is the left injection of the result.
  \<^item> Functions of the standard library and of other files of the package are modelled
    from their documentation where a definition is short (\<^verbatim>\<open>Header.Get\<close>, \<^verbatim>\<open>Header.Set\<close>,
    \<^verbatim>\<open>bufio.ScanLines\<close>) and are arguments otherwise (record \<open>lib\<close>).
\<close>

subsection \<open>Basic types\<close>

type_synonym go_int = "64 word"

type_synonym time = int

type_synonym resp_ptr = nat

datatype panic = IndexOutOfRange | NilDereference

text \<open>\<^verbatim>\<open>error\<close> values: the one built by \<^verbatim>\<open>errors.New\<close> in this file, and whatever the
  transport reports.\<close>

datatype error = errorString string | transportError string

text \<open>The error of a \<^verbatim>\<open>Read\<close>: \<^verbatim>\<open>io.EOF\<close> or any other error value.\<close>

datatype ioerr = EOF | readError string

definition range_order :: "('k \<rightharpoonup> 'v) \<Rightarrow> 'k list \<Rightarrow> bool" where
  "range_order m ks \<longleftrightarrow> distinct ks \<and> set ks = dom m"

subsection \<open>Strings\<close>

definition upperAZ :: string where
  "upperAZ = ''ABCDEFGHIJKLMNOPQRSTUVWXYZ''"

definition lowerAZ :: string where
  "lowerAZ = ''abcdefghijklmnopqrstuvwxyz''"

definition toLowerByte :: "char \<Rightarrow> char" where
  "toLowerByte c = (case map_of (zip upperAZ lowerAZ) c of Some d \<Rightarrow> d | None \<Rightarrow> c)"

definition toUpperByte :: "char \<Rightarrow> char" where
  "toUpperByte c = (case map_of (zip lowerAZ upperAZ) c of Some d \<Rightarrow> d | None \<Rightarrow> c)"

text \<open>\<^verbatim>\<open>strings.ToLower\<close> on the bytes of a string. Go maps every rune by the Unicode
  tables, and a few runes outside ASCII become ASCII letters (U+0130 becomes \<^verbatim>\<open>i\<close>, U+212A
  becomes \<^verbatim>\<open>k\<close>); the model lowers the ASCII letters and leaves every other byte. The two
  agree on every string of ASCII bytes, and on the ASCII bytes that come before the
  first byte outside ASCII. Nothing below is stated of \<open>ToLower\<close> on other input.\<close>

definition ToLower :: "string \<Rightarrow> string" where
  "ToLower s = map toLowerByte s"

definition HasPrefix :: "string \<Rightarrow> string \<Rightarrow> bool" where
  "HasPrefix s p \<longleftrightarrow> prefix p s"

fun Contains :: "string \<Rightarrow> string \<Rightarrow> bool" where
  "Contains [] sub = (sub = [])"
| "Contains (c # cs) sub = (prefix sub (c # cs) \<or> Contains cs sub)"

text \<open>\<^verbatim>\<open>strings.SplitN(s, sep, 2)[0]\<close> for a separator of one byte: the part of \<open>s\<close> before
  the first separator, all of \<open>s\<close> when there is none.\<close>

definition SplitN2_first :: "string \<Rightarrow> char \<Rightarrow> string" where
  "SplitN2_first s sep = takeWhile (\<lambda>c. c \<noteq> sep) s"

subsection \<open>Headers\<close>

text \<open>\<^verbatim>\<open>http.Header\<close> is \<^verbatim>\<open>map[string][]string\<close>. \<^verbatim>\<open>Get\<close> and \<^verbatim>\<open>Set\<close> canonicalise the key
  they are given (\<^verbatim>\<open>textproto.CanonicalMIMEHeaderKey\<close>): a key with a byte that is not a
  token byte is left as it is, otherwise the first letter and every letter after a
  hyphen is made upper case and every other letter lower case.\<close>

type_synonym header = "string \<rightharpoonup> string list"

definition validHeaderFieldByte :: "char \<Rightarrow> bool" where
  "validHeaderFieldByte c \<longleftrightarrow>
     c \<in> set upperAZ \<or> c \<in> set lowerAZ \<or> c \<in> set ''0123456789''
     \<or> c \<in> set ''!#$%&*+-.^_|~'' \<or> c = CHR 0x27 \<or> c = CHR 0x60"

fun canonLoop :: "bool \<Rightarrow> string \<Rightarrow> string" where
  "canonLoop upper [] = []"
| "canonLoop upper (c # cs) =
     (let c' = (if upper then toUpperByte c else toLowerByte c)
      in c' # canonLoop (c' = CHR ''-'') cs)"

definition CanonicalMIMEHeaderKey :: "string \<Rightarrow> string" where
  "CanonicalMIMEHeaderKey s =
     (if list_all validHeaderFieldByte s then canonLoop True s else s)"

definition Header_Get :: "header \<Rightarrow> string \<Rightarrow> string" where
  "Header_Get h key =
     (case h (CanonicalMIMEHeaderKey key) of
        None \<Rightarrow> []
      | Some [] \<Rightarrow> []
      | Some (v # _) \<Rightarrow> v)"

definition Header_Set :: "header \<Rightarrow> string \<Rightarrow> string \<Rightarrow> header" where
  "Header_Set h key v = h(CanonicalMIMEHeaderKey key \<mapsto> [v])"

text \<open>The documented invariant of a \<^verbatim>\<open>Header\<close>: its keys are in canonical form.\<close>

definition canonical_keys :: "header \<Rightarrow> bool" where
  "canonical_keys h \<longleftrightarrow> (\<forall>k \<in> dom h. CanonicalMIMEHeaderKey k = k)"

subsection \<open>Requests and responses\<close>

record url =
  Scheme :: string
  Host :: string
  Path :: string
  RawQuery :: string

text \<open>\<open>Body\<close> tells whether the request has a body (\<^verbatim>\<open>req.Body != nil\<close>).\<close>

record http_Request =
  Method :: string
  URL :: url
  Header :: header
  Body :: bool

record http_Response =
  StatusCode :: go_int
  ResHeader :: header
  Request :: http_Request

text \<open>What this file calls and does not define: \<^verbatim>\<open>url.URL.String\<close>, \<^verbatim>\<open>httputil.DumpRequest\<close>
  and \<^verbatim>\<open>httputil.DumpResponse\<close> without the body (\<open>None\<close> when they return an error), and
  \<^verbatim>\<open>traceHttpReq\<close> of this package.\<close>

record lib =
  URL_String :: "url \<Rightarrow> string"
  DumpRequest :: "http_Request \<Rightarrow> string option"
  DumpResponse :: "http_Response \<Rightarrow> string option"
  traceHttpReq :: "http_Request \<Rightarrow> string"

subsection \<open>Output\<close>

text \<open>The calls of \<^verbatim>\<open>tracerx.Printf\<close>, by format: \<^verbatim>\<open>"HTTP: %s"\<close>, \<^verbatim>\<open>"HTTP: %d"\<close> and
  \<^verbatim>\<open>"api: redirect %s %s to %s"\<close>.\<close>

datatype trace_entry =
  TraceHTTP string
| TraceHTTPStatus go_int
| TraceRedirect string string string

subsection \<open>The redirect policy\<close>

text \<open>The test made on the key \<^verbatim>\<open>"Authorization"\<close>: the scheme or the host of the new
  request is not the one of the oldest.\<close>

definition cross_origin :: "http_Request \<Rightarrow> http_Request \<Rightarrow> bool" where
  "cross_origin req oldest \<longleftrightarrow>
     Scheme (URL req) \<noteq> Scheme (URL oldest) \<or> Host (URL req) \<noteq> Host (URL oldest)"

text \<open>One turn of the loop over \<^verbatim>\<open>oldest.Header\<close>.\<close>

definition copyHeader :: "http_Request \<Rightarrow> http_Request \<Rightarrow> header \<Rightarrow> string \<Rightarrow> header" where
  "copyHeader req oldest h key =
     (if key = ''Authorization'' \<and> cross_origin req oldest
      then h
      else Header_Set h key (Header_Get (Header oldest) key))"

text \<open>\<open>checkRedirect L ks req via\<close>: \<open>ks\<close> is the order in which the loop ranges over the
  keys of \<^verbatim>\<open>via[0].Header\<close>. The result is the error returned, the request as the loop
  left it, and the trace written.\<close>

definition checkRedirect ::
  "lib \<Rightarrow> string list \<Rightarrow> http_Request \<Rightarrow> http_Request list
     \<Rightarrow> panic + (error option \<times> http_Request \<times> trace_entry list)" where
  "checkRedirect L ks req via =
     (if 3 \<le> length via then Inr (Some (errorString ''stopped after 3 redirects''), req, [])
      else case via of
        [] \<Rightarrow> Inl IndexOutOfRange
      | oldest # _ \<Rightarrow>
          (let req' = req\<lparr>Header := foldl (copyHeader req oldest) (Header req) ks\<rparr>;
               oldestUrl = SplitN2_first (URL_String L (URL oldest)) (CHR ''?'');
               newUrl = SplitN2_first (URL_String L (URL req')) (CHR ''?'')
           in Inr (None, req', [TraceRedirect (Method oldest) oldestUrl newUrl])))"

subsection \<open>Configuration and the registries\<close>

text \<open>The fields of \<^verbatim>\<open>Config\<close> this file reads.\<close>

record config =
  isLoggingStats :: bool
  isTracingHttp :: bool
  isDebuggingHttp :: bool

record httpTransferStats =
  HeaderSize :: go_int
  BodySize :: go_int
  Start :: time
  Stop :: time

text \<open>\<^verbatim>\<open>httpTransfer\<close> holds two pointers. \<^verbatim>\<open>Do\<close> is the only place that builds one, from
  two fresh \<^verbatim>\<open>httpTransferStats\<close> that nothing else points to, so the record holds the
  two values.\<close>

record httpTransfer =
  requestStats :: httpTransferStats
  responseStats :: httpTransferStats

text \<open>The package-level maps, and what has been written to \<^verbatim>\<open>os.Stderr\<close> and to
  \<^verbatim>\<open>tracerx\<close>.\<close>

record state =
  httpTransfers :: "resp_ptr \<rightharpoonup> httpTransfer"
  httpTransferBuckets :: "string \<rightharpoonup> resp_ptr list"
  stderr :: "string list"
  tracerx :: "trace_entry list"

text \<open>\<^verbatim>\<open>httpTransferBuckets[key]\<close>: the empty slice when the key is not in the map.\<close>

definition bucket :: "state \<Rightarrow> string \<Rightarrow> resp_ptr list" where
  "bucket st key = (case httpTransferBuckets st key of None \<Rightarrow> [] | Some ps \<Rightarrow> ps)"

definition LogTransfer :: "config \<Rightarrow> string \<Rightarrow> resp_ptr \<Rightarrow> state \<Rightarrow> state" where
  "LogTransfer cfg key r st =
     (if isLoggingStats cfg
      then st\<lparr>httpTransferBuckets := (httpTransferBuckets st)(key \<mapsto> bucket st key @ [r])\<rparr>
      else st)"

subsection \<open>Traces\<close>

text \<open>\<^verbatim>\<open>bufio.Scanner\<close> with \<^verbatim>\<open>ScanLines\<close>: the lines of the dump without their end-of-line
  marker, a last line without marker included when it is not empty. The scanner stops
  for good at a line that does not fit its buffer of \<^verbatim>\<open>MaxScanTokenSize\<close> bytes.\<close>

definition MaxScanTokenSize :: nat where
  "MaxScanTokenSize = 65536"

definition dropCR :: "string \<Rightarrow> string" where
  "dropCR s = (if s \<noteq> [] \<and> last s = CHR 0x0D then butlast s else s)"

fun scanLines :: "string \<Rightarrow> string \<Rightarrow> string list" where
  "scanLines acc [] = (if acc = [] then [] else [dropCR (rev acc)])"
| "scanLines acc (c # cs) =
     (if c = CHR 0x0A then dropCR (rev acc) # scanLines [] cs
      else if MaxScanTokenSize \<le> Suc (length acc) then []
      else scanLines (c # acc) cs)"

text \<open>The body of the loop of \<^verbatim>\<open>traceHttpDump\<close>: what one line of the dump becomes.\<close>

definition traceLine :: "config \<Rightarrow> string \<Rightarrow> string \<Rightarrow> string" where
  "traceLine cfg direction line =
     (if \<not> isDebuggingHttp cfg \<and> HasPrefix (ToLower line) ''authorization: basic''
      then direction @ '' Authorization: Basic * * * * *'' @ [CHR 0x0A]
      else direction @ '' '' @ line @ [CHR 0x0A])"

definition traceHttpDump :: "config \<Rightarrow> string \<Rightarrow> string \<Rightarrow> state \<Rightarrow> state" where
  "traceHttpDump cfg direction dump st =
     st\<lparr>stderr := stderr st @ map (traceLine cfg direction) (scanLines [] dump)\<rparr>"

definition tracedTypes :: "string list" where
  "tracedTypes = [''json'', ''text'', ''xml'', ''html'']"

definition isTraceableContent :: "header \<Rightarrow> bool" where
  "isTraceableContent h =
     (let ctype = ToLower (SplitN2_first (Header_Get h ''Content-Type'') (CHR '';''))
      in list_ex (Contains ctype) tracedTypes)"

definition traceHttpRequest :: "config \<Rightarrow> lib \<Rightarrow> http_Request \<Rightarrow> state \<Rightarrow> state" where
  "traceHttpRequest cfg L req st =
     (let st1 = st\<lparr>tracerx := tracerx st @ [TraceHTTP (traceHttpReq L req)]\<rparr>
      in if \<not> isTracingHttp cfg then st1
         else case DumpRequest L req of
                None \<Rightarrow> st1
              | Some dump \<Rightarrow> traceHttpDump cfg ''>'' dump st1)"

definition traceHttpResponse :: "config \<Rightarrow> lib \<Rightarrow> http_Response option \<Rightarrow> state \<Rightarrow> state" where
  "traceHttpResponse cfg L res st =
     (case res of
        None \<Rightarrow> st
      | Some r \<Rightarrow>
          (let st1 = st\<lparr>tracerx := tracerx st @ [TraceHTTPStatus (StatusCode r)]\<rparr>
           in if \<not> isTracingHttp cfg then st1
              else case DumpResponse L r of
                     None \<Rightarrow> st1
                   | Some dump \<Rightarrow>
                       (let sep = (if isTraceableContent (ResHeader r)
                                   then [CHR 0x0A, CHR 0x0A] else [CHR 0x0A])
                        in traceHttpDump cfg ''<'' dump (st1\<lparr>stderr := stderr st1 @ [sep]\<rparr>))))"

subsection \<open>The counting body\<close>

text \<open>The embedded \<^verbatim>\<open>io.ReadCloser\<close> is the stream underneath; what one \<^verbatim>\<open>Read\<close> of it
  returns, the bytes it delivered and its error, is an argument of \<open>Read\<close>.\<close>

record countingReadCloser =
  Count :: go_int
  request :: "http_Request option"
  response :: "resp_ptr option"
  isTraceableType :: bool
  useGitTrace :: bool

definition countingRequest :: "http_Request \<Rightarrow> countingReadCloser" where
  "countingRequest req =
     \<lparr>Count = 0, request = Some req, response = None,
      isTraceableType = isTraceableContent (Header req), useGitTrace = False\<rparr>"

definition countingResponse :: "resp_ptr \<Rightarrow> http_Response \<Rightarrow> countingReadCloser" where
  "countingResponse p r =
     \<lparr>Count = 0, request = None, response = Some p,
      isTraceableType = isTraceableContent (ResHeader r), useGitTrace = True\<rparr>"

text \<open>\<open>Read cfg now (chunk, e) (c, st)\<close>: the stream underneath delivered the bytes
  \<open>chunk\<close> with the error \<open>e\<close>; \<open>now\<close> is the clock, read only when the transfer is
  marked as done.\<close>

definition Read ::
  "config \<Rightarrow> time \<Rightarrow> string \<times> ioerr option \<Rightarrow> countingReadCloser \<times> state
     \<Rightarrow> (go_int \<times> ioerr option) \<times> countingReadCloser \<times> state" where
  "Read cfg now got cs =
     (let chunk = fst got; e = snd got; c = fst cs; st = snd cs;
          n = (of_nat (length chunk) :: go_int)
      in if e \<noteq> None \<and> e \<noteq> Some EOF then ((n, e), c, st)
         else
           (let c1 = c\<lparr>Count := Count c + n\<rparr>;
                st1 = (if isTraceableType c1
                       then (let s = (if useGitTrace c1
                                      then st\<lparr>tracerx := tracerx st @ [TraceHTTP chunk]\<rparr>
                                      else st)
                             in if isTracingHttp cfg then s\<lparr>stderr := stderr s @ [chunk]\<rparr> else s)
                       else st);
                st2 = (if e = Some EOF \<and> isLoggingStats cfg
                       then (case response c1 of
                               None \<Rightarrow> st1
                             | Some p \<Rightarrow>
                                 (case httpTransfers st1 p of
                                    None \<Rightarrow> st1
                                  | Some t \<Rightarrow>
                                      st1\<lparr>httpTransfers :=
                                            (httpTransfers st1)
                                              (p \<mapsto> t\<lparr>responseStats :=
                                                        (responseStats t)
                                                          \<lparr>BodySize := Count c1, Stop := now\<rparr>\<rparr>)\<rparr>))
                       else st1)
            in ((n, e), c1, st2)))"

text \<open>Successive calls of \<open>Read\<close>, each with its clock and with what the stream
  underneath returned; the results are listed in the order of the calls.\<close>

fun Reads ::
  "config \<Rightarrow> (time \<times> string \<times> ioerr option) list \<Rightarrow> countingReadCloser \<times> state
     \<Rightarrow> (go_int \<times> ioerr option) list \<times> countingReadCloser \<times> state" where
  "Reads cfg [] cs = ([], cs)"
| "Reads cfg (x # xs) cs =
     (let r = Read cfg (fst x) (snd x) cs;
          rest = Reads cfg xs (snd r)
      in (fst r # fst rest, snd rest))"

text \<open>The results of \<open>Read\<close> that pass its first test: no error, or end-of-stream.\<close>

definition counted :: "go_int \<times> ioerr option \<Rightarrow> bool" where
  "counted r \<longleftrightarrow> snd r = None \<or> snd r = Some EOF"

subsection \<open>The client\<close>

text \<open>What \<^verbatim>\<open>c.Client.Do(req)\<close> did: the reads it made of the request body (they go
  through the counting body when the request has one), and the response, with its
  address, and the error it returned.\<close>

record transport_result =
  t_reads :: "(string \<times> ioerr option) list"
  t_res :: "(resp_ptr \<times> http_Response) option"
  t_err :: "error option"

text \<open>\<open>Do cfg L start tr req st\<close> returns the address of the response, the counting body
  put into \<^verbatim>\<open>res.Body\<close> and the error. With a nil error and a nil response,
  \<^verbatim>\<open>countingResponse\<close> reads \<^verbatim>\<open>res.Body\<close> through the nil pointer. The counting body of
  the request has no response, so its reads never look at the clock: they are given
  \<open>start\<close>.\<close>

definition Do ::
  "config \<Rightarrow> lib \<Rightarrow> time \<Rightarrow> transport_result \<Rightarrow> http_Request \<Rightarrow> state
     \<Rightarrow> panic + ((resp_ptr option \<times> countingReadCloser option \<times> error option) \<times> state)" where
  "Do cfg L start tr req st =
     (let st1 = traceHttpRequest cfg L req st;
          crc = countingRequest req;
          sent = (if Body req
                  then snd (Reads cfg (map (Pair start) (t_reads tr)) (crc, st1))
                  else (crc, st1));
          crc1 = fst sent; st2 = snd sent
      in case t_err tr of
           Some e \<Rightarrow> Inr ((map_option fst (t_res tr), None, Some e), st2)
         | None \<Rightarrow>
             (case t_res tr of
                None \<Rightarrow> Inl NilDereference
              | Some pr \<Rightarrow>
                  (let p = fst pr; r = snd pr;
                       st3 = traceHttpResponse cfg L (Some r) st2;
                       cresp = countingResponse p r;
                       st4 =
                         (if isLoggingStats cfg
                          then
                            (let reqHeaderSize =
                                   (case DumpRequest L req of
                                      Some dump \<Rightarrow> of_nat (length dump) | None \<Rightarrow> 0);
                                 resHeaderSize =
                                   (case DumpResponse L r of
                                      Some dump \<Rightarrow> of_nat (length dump) | None \<Rightarrow> 0);
                                 reqstats = \<lparr>HeaderSize = reqHeaderSize, BodySize = Count crc1,
                                             Start = 0, Stop = 0\<rparr>;
                                 resstats = \<lparr>HeaderSize = resHeaderSize, BodySize = 0,
                                             Start = start, Stop = 0\<rparr>;
                                 t = \<lparr>requestStats = reqstats, responseStats = resstats\<rparr>
                             in st3\<lparr>httpTransfers := (httpTransfers st3)(p \<mapsto> t)\<rparr>)
                          else st3)
                   in Inr ((Some p, Some cresp, None), st4))))"

subsection \<open>The report\<close>

text \<open>\<^verbatim>\<open>Time.Sub\<close> gives a \<^verbatim>\<open>Duration\<close>, an \<^verbatim>\<open>int64\<close> of nanoseconds, and saturates.\<close>

definition Sub :: "time \<Rightarrow> time \<Rightarrow> int" where
  "Sub t u = max (- (2 ^ 63)) (min (2 ^ 63 - 1) (t - u))"

text \<open>The lines of the log file, by format: the line of the settings, and the line of
  one transfer with its key, the four sizes, the duration, the status and the URL.\<close>

datatype stats_line =
  SummaryLine go_int bool int string
| TransferLine string go_int go_int go_int go_int int go_int string

text \<open>What the report reads from its surroundings: the two settings, the clock in
  seconds, the version, and what \<^verbatim>\<open>statsLogFile\<close> returned (the name of the file, or
  the text of its error).\<close>

record report_env =
  ConcurrentTransfers :: go_int
  BatchTransfer :: bool
  unixNow :: int
  Version :: string
  statsLogFile :: "string + string"

definition transferLine :: "lib \<Rightarrow> string \<Rightarrow> httpTransfer \<Rightarrow> http_Response \<Rightarrow> stats_line" where
  "transferLine L key stats resp =
     TransferLine key
       (HeaderSize (requestStats stats))
       (BodySize (requestStats stats))
       (HeaderSize (responseStats stats))
       (BodySize (responseStats stats))
       (Sub (Stop (responseStats stats)) (Start (responseStats stats)))
       (StatusCode resp)
       (URL_String L (URL (Request resp)))"

text \<open>The inner loop, over the responses of one bucket. \<^verbatim>\<open>httpTransfers[response]\<close> of a
  key that is not in the map is nil, and \<^verbatim>\<open>stats.requestStats\<close> then reads through nil;
  so does \<^verbatim>\<open>response.StatusCode\<close> when the bucket holds an address that is no response.
  \<open>heap\<close> gives the response at an address.\<close>

fun bucketLines ::
  "lib \<Rightarrow> (resp_ptr \<rightharpoonup> httpTransfer) \<Rightarrow> (resp_ptr \<rightharpoonup> http_Response) \<Rightarrow> string
     \<Rightarrow> resp_ptr list \<Rightarrow> panic + stats_line list" where
  "bucketLines L T heap key [] = Inr []"
| "bucketLines L T heap key (p # ps) =
     (case T p of
        None \<Rightarrow> Inl NilDereference
      | Some stats \<Rightarrow>
          (case heap p of
             None \<Rightarrow> Inl NilDereference
           | Some resp \<Rightarrow>
               (case bucketLines L T heap key ps of
                  Inl x \<Rightarrow> Inl x
                | Inr ls \<Rightarrow> Inr (transferLine L key stats resp # ls))))"

text \<open>The outer loop, over the keys of \<^verbatim>\<open>httpTransferBuckets\<close> in the order \<open>ks\<close>.\<close>

fun allLines ::
  "lib \<Rightarrow> state \<Rightarrow> (resp_ptr \<rightharpoonup> http_Response) \<Rightarrow> string list \<Rightarrow> panic + stats_line list" where
  "allLines L st heap [] = Inr []"
| "allLines L st heap (key # ks) =
     (case bucketLines L (httpTransfers st) heap key (bucket st key) of
        Inl x \<Rightarrow> Inl x
      | Inr ls \<Rightarrow>
          (case allLines L st heap ks of
             Inl x \<Rightarrow> Inl x
           | Inr ls' \<Rightarrow> Inr (ls @ ls')))"

text \<open>\<open>LogHttpStats cfg L E heap ks st\<close> returns the state and the lines written to the
  log file, \<open>None\<close> when no file was written. A panic ends the program in the middle of
  the loops; the result is then the panic alone.\<close>

definition LogHttpStats ::
  "config \<Rightarrow> lib \<Rightarrow> report_env \<Rightarrow> (resp_ptr \<rightharpoonup> http_Response) \<Rightarrow> string list \<Rightarrow> state
     \<Rightarrow> panic + (state \<times> stats_line list option)" where
  "LogHttpStats cfg L E heap ks st =
     (if \<not> isLoggingStats cfg then Inr (st, None)
      else case statsLogFile E of
             Inl msg \<Rightarrow>
               Inr (st\<lparr>stderr := stderr st
                         @ [''Error logging http stats: '' @ msg @ [CHR 0x0A]]\<rparr>, None)
           | Inr name \<Rightarrow>
               (case allLines L st heap ks of
                  Inl x \<Rightarrow> Inl x
                | Inr ls \<Rightarrow>
                    Inr (st\<lparr>stderr := stderr st
                              @ [''HTTP Stats logged to file '' @ name @ [CHR 0x0A]]\<rparr>,
                         Some (SummaryLine (ConcurrentTransfers E) (BatchTransfer E)
                                 (unixNow E) (Version E) # ls))))"

subsection \<open>Example inputs\<close>

text \<open>A GET to \<^verbatim>\<open>https://host/a\<close> with a Basic credential, a hop to another host and a
  hop to the same host; a stand-in for the library; a response and two outcomes of the
  transport.\<close>

definition ex_cfg :: config where
  "ex_cfg = \<lparr>isLoggingStats = True, isTracingHttp = True, isDebuggingHttp = False\<rparr>"

definition ex_cfg_off :: config where
  "ex_cfg_off = \<lparr>isLoggingStats = False, isTracingHttp = True, isDebuggingHttp = False\<rparr>"

definition ex_orig :: http_Request where
  "ex_orig =
     \<lparr>Method = ''GET'',
      URL = \<lparr>Scheme = ''https'', Host = ''host'', Path = ''/a'', RawQuery = ''token=1''\<rparr>,
      Header = [''Authorization'' \<mapsto> [''Basic abcd''], ''Accept'' \<mapsto> [''application/json'']],
      Body = False\<rparr>"

definition ex_hop_other :: http_Request where
  "ex_hop_other =
     \<lparr>Method = ''GET'',
      URL = \<lparr>Scheme = ''https'', Host = ''other'', Path = ''/b'', RawQuery = []\<rparr>,
      Header = Map.empty, Body = False\<rparr>"

definition ex_hop_same :: http_Request where
  "ex_hop_same =
     \<lparr>Method = ''GET'',
      URL = \<lparr>Scheme = ''https'', Host = ''host'', Path = ''/c'', RawQuery = []\<rparr>,
      Header = Map.empty, Body = False\<rparr>"

definition ex_lib :: lib where
  "ex_lib =
     \<lparr>URL_String = (\<lambda>u. Scheme u @ ''://'' @ Host u @ Path u
                           @ (if RawQuery u = [] then [] else ''?'' @ RawQuery u)),
      DumpRequest = (\<lambda>r. Some (Method r @ '' '' @ Path (URL r) @ '' HTTP/1.1''
                                @ [CHR 0x0D, CHR 0x0A] @ ''Host: '' @ Host (URL r)
                                @ [CHR 0x0D, CHR 0x0A, CHR 0x0D, CHR 0x0A])),
      DumpResponse = (\<lambda>r. Some (''HTTP/1.1 200 OK'' @ [CHR 0x0D, CHR 0x0A, CHR 0x0D, CHR 0x0A])),
      traceHttpReq = (\<lambda>r. Method r @ '' '' @ Host (URL r) @ Path (URL r))\<rparr>"

definition ex_resp :: http_Response where
  "ex_resp =
     \<lparr>StatusCode = 200,
      ResHeader = [''Content-Type'' \<mapsto> [''application/octet-stream'']],
      Request = ex_orig\<rparr>"

definition ex_st0 :: state where
  "ex_st0 = \<lparr>httpTransfers = Map.empty, httpTransferBuckets = Map.empty,
             stderr = [], tracerx = []\<rparr>"

text \<open>The record that \<open>Do\<close> opens for \<open>ex_resp\<close> at address 1 when the clock reads 100,
  and the state that holds it.\<close>

definition ex_transfer :: httpTransfer where
  "ex_transfer =
     \<lparr>requestStats = \<lparr>HeaderSize = 31, BodySize = 0, Start = 0, Stop = 0\<rparr>,
      responseStats = \<lparr>HeaderSize = 19, BodySize = 0, Start = 100, Stop = 0\<rparr>\<rparr>"

definition ex_st1 :: state where
  "ex_st1 = ex_st0\<lparr>httpTransfers := [1 \<mapsto> ex_transfer]\<rparr>"

definition ex_tr_ok :: transport_result where
  "ex_tr_ok = \<lparr>t_reads = [], t_res = Some (1, ex_resp), t_err = None\<rparr>"

definition ex_tr_fail :: transport_result where
  "ex_tr_fail = \<lparr>t_reads = [], t_res = None,
                 t_err = Some (transportError ''dial tcp: i/o timeout'')\<rparr>"

text \<open>Three reads of a body of five bytes, each with its clock; a dump of a request with
  a Basic credential; a record that was marked as done; a state with two records, the
  responses at their addresses, and the surroundings of the report.\<close>

definition ex_reads :: "(time \<times> string \<times> ioerr option) list" where
  "ex_reads = [(200, ''abc'', None), (300, ''de'', None), (400, [], Some EOF)]"

definition ex_dump :: string where
  "ex_dump = ''GET /a HTTP/1.1'' @ [CHR 0x0D, CHR 0x0A]
             @ ''Host: host'' @ [CHR 0x0D, CHR 0x0A]
             @ ''Authorization: Basic abcd'' @ [CHR 0x0D, CHR 0x0A]
             @ [CHR 0x0D, CHR 0x0A]"

definition ex_transfer_done :: httpTransfer where
  "ex_transfer_done =
     ex_transfer\<lparr>responseStats := (responseStats ex_transfer)\<lparr>BodySize := 5, Stop := 500\<rparr>\<rparr>"

definition ex_st2 :: state where
  "ex_st2 = ex_st0\<lparr>httpTransfers := [1 \<mapsto> ex_transfer_done, 2 \<mapsto> ex_transfer]\<rparr>"

definition ex_heap :: "resp_ptr \<rightharpoonup> http_Response" where
  "ex_heap = [1 \<mapsto> ex_resp, 2 \<mapsto> ex_resp]"

definition ex_env :: report_env where
  "ex_env = \<lparr>ConcurrentTransfers = 3, BatchTransfer = True, unixNow = 1446000000,
             Version = ''1.0.0'', statsLogFile = Inr ''http-1446000000.log''\<rparr>"

text \<open>A hop to another host that arrives with a credential of its own; an original
  request with two values for \<^verbatim>\<open>Accept\<close>; an original request whose credential sits under
  a key that is not in canonical form; reads of which the first returns two bytes with
  an error that is not end-of-stream.\<close>

definition ex_hop_other_auth :: http_Request where
  "ex_hop_other_auth = ex_hop_other\<lparr>Header := [''Authorization'' \<mapsto> [''Basic abcd'']]\<rparr>"

definition ex_orig_multi :: http_Request where
  "ex_orig_multi =
     ex_orig\<lparr>Header := [''Accept'' \<mapsto> [''application/json'', ''text/plain'']]\<rparr>"

definition ex_orig_lower :: http_Request where
  "ex_orig_lower = ex_orig\<lparr>Header := [''authorization'' \<mapsto> [''Basic abcd'']]\<rparr>"

definition ex_reads_err :: "(time \<times> string \<times> ioerr option) list" where
  "ex_reads_err = [(200, ''ab'', Some (readError ''boom'')), (400, ''cde'', Some EOF)]"

section \<open>Properties\<close>

subsection \<open>What a read and a trace leave alone\<close>

lemma Read_buckets:
  "httpTransferBuckets (snd (snd (Read cfg now x cs))) = httpTransferBuckets (snd cs)"
  by (simp add: Read_def Let_def split: option.splits)

lemma Read_response:
  "response (fst (snd (Read cfg now x cs))) = response (fst cs)"
  by (simp add: Read_def Let_def)

lemma Read_no_response:
  "response (fst cs) = None \<Longrightarrow>
     httpTransfers (snd (snd (Read cfg now x cs))) = httpTransfers (snd cs)"
  by (simp add: Read_def Let_def)

lemma Read_no_logging:
  "\<not> isLoggingStats cfg \<Longrightarrow>
     httpTransfers (snd (snd (Read cfg now x cs))) = httpTransfers (snd cs)"
  by (simp add: Read_def Let_def)

lemma Reads_buckets:
  "httpTransferBuckets (snd (snd (Reads cfg xs cs))) = httpTransferBuckets (snd cs)"
  by (induction xs arbitrary: cs) (simp_all add: Let_def Read_buckets)

lemma Reads_response:
  "response (fst (snd (Reads cfg xs cs))) = response (fst cs)"
  by (induction xs arbitrary: cs) (simp_all add: Let_def Read_response)

lemma Reads_no_response:
  "response (fst cs) = None \<Longrightarrow>
     httpTransfers (snd (snd (Reads cfg xs cs))) = httpTransfers (snd cs)"
  by (induction xs arbitrary: cs) (simp_all add: Let_def Read_response Read_no_response)

lemma traceHttpDump_registry:
  "httpTransfers (traceHttpDump cfg d dump st) = httpTransfers st"
  "httpTransferBuckets (traceHttpDump cfg d dump st) = httpTransferBuckets st"
  by (simp_all add: traceHttpDump_def)

lemma traceHttpRequest_registry:
  "httpTransfers (traceHttpRequest cfg L req st) = httpTransfers st"
  "httpTransferBuckets (traceHttpRequest cfg L req st) = httpTransferBuckets st"
  by (simp_all add: traceHttpRequest_def Let_def traceHttpDump_registry split: option.splits)

lemma traceHttpResponse_registry:
  "httpTransfers (traceHttpResponse cfg L res st) = httpTransfers st"
  "httpTransferBuckets (traceHttpResponse cfg L res st) = httpTransferBuckets st"
  by (simp_all add: traceHttpResponse_def Let_def traceHttpDump_registry split: option.splits)

text \<open>The registries when the transport returns to \<open>Do\<close>: the counting body of a
  request has no response, so the reads of the transport write no record.\<close>

lemma sent_registry:
  "httpTransfers (snd (if Body req
        then snd (Reads cfg xs (countingRequest req, traceHttpRequest cfg L req st))
        else (countingRequest req, traceHttpRequest cfg L req st))) = httpTransfers st"
  "httpTransferBuckets (snd (if Body req
        then snd (Reads cfg xs (countingRequest req, traceHttpRequest cfg L req st))
        else (countingRequest req, traceHttpRequest cfg L req st))) = httpTransferBuckets st"
  by (simp_all add: Reads_no_response Reads_buckets traceHttpRequest_registry
        countingRequest_def)

subsection \<open>Failures of the transport and of a read\<close>

text \<open>
  Claim C7. When the transport fails, \<open>Do\<close> returns what the transport returned, its
  error as it is, and the map of records is the one before the call: no record is made
  for that attempt. The buckets are untouched as well.
\<close>

theorem Do_transport_error:
  assumes "t_err tr = Some e"
  shows "\<exists>st'. Do cfg L start tr req st = Inr ((map_option fst (t_res tr), None, Some e), st')
           \<and> httpTransfers st' = httpTransfers st
           \<and> httpTransferBuckets st' = httpTransferBuckets st"
  using assms by (simp add: Do_def Let_def sent_registry)

theorem Do_transport_error_witness:
  "t_err ex_tr_fail = Some (transportError ''dial tcp: i/o timeout'')
   \<and> (\<exists>st'. Do ex_cfg ex_lib 100 ex_tr_fail ex_orig ex_st0
              = Inr ((map_option fst (t_res ex_tr_fail), None,
                      Some (transportError ''dial tcp: i/o timeout'')), st')
         \<and> httpTransfers st' = httpTransfers ex_st0
         \<and> httpTransferBuckets st' = httpTransferBuckets ex_st0)"
proof -
  have h: "t_err ex_tr_fail = Some (transportError ''dial tcp: i/o timeout'')"
    by (simp add: ex_tr_fail_def)
  from Do_transport_error [OF h, of ex_cfg ex_lib 100 ex_orig ex_st0] h
  show ?thesis by blast
qed

text \<open>
  Claim C8. A read whose stream underneath returns an error other than end-of-stream
  returns the byte count and that very error, and changes nothing: neither the counter
  of the stream nor any record, so a stop time that is zero stays zero.
\<close>

theorem Read_error_unchanged:
  "Read cfg now (chunk, Some (readError msg)) (c, st)
     = ((of_nat (length chunk), Some (readError msg)), c, st)"
  by (simp add: Read_def Let_def)

subsection \<open>Statistics switched off\<close>

text \<open>
  Claim C9. With \<^verbatim>\<open>Config.isLoggingStats\<close> false, no operation writes to a registry:
  whatever \<open>Do\<close> returns, both maps are as before; \<open>LogTransfer\<close> returns the state it was
  given; and a read that meets end-of-stream leaves both maps as they were.
\<close>

theorem no_registry_write_when_disabled:
  assumes "\<not> isLoggingStats cfg"
  shows "(\<forall>r. Do cfg L start tr req st = Inr r \<longrightarrow>
            httpTransfers (snd r) = httpTransfers st
            \<and> httpTransferBuckets (snd r) = httpTransferBuckets st)
       \<and> LogTransfer cfg key p st = st
       \<and> httpTransfers (snd (snd (Read cfg now (chunk, Some EOF) (c, st)))) = httpTransfers st
       \<and> httpTransferBuckets (snd (snd (Read cfg now (chunk, Some EOF) (c, st))))
           = httpTransferBuckets st"
proof -
  have "httpTransfers (snd r) = httpTransfers st
        \<and> httpTransferBuckets (snd r) = httpTransferBuckets st"
    if "Do cfg L start tr req st = Inr r" for r
    using that assms
    by (auto simp: Do_def Let_def sent_registry traceHttpResponse_registry
             split: option.splits)
  moreover have "LogTransfer cfg key p st = st"
    using assms by (simp add: LogTransfer_def)
  moreover have
    "httpTransfers (snd (snd (Read cfg now (chunk, Some EOF) (c, st)))) = httpTransfers st"
    using Read_no_logging [OF assms, of now "(chunk, Some EOF)" "(c, st)"] by simp
  moreover have
    "httpTransferBuckets (snd (snd (Read cfg now (chunk, Some EOF) (c, st))))
       = httpTransferBuckets st"
    using Read_buckets [of cfg now "(chunk, Some EOF)" "(c, st)"] by simp
  ultimately show ?thesis by blast
qed

theorem no_registry_write_when_disabled_witness:
  "\<not> isLoggingStats ex_cfg_off
   \<and> (\<exists>r. Do ex_cfg_off ex_lib 100 ex_tr_ok ex_orig ex_st0 = Inr r
          \<and> httpTransfers (snd r) = httpTransfers ex_st0
          \<and> httpTransferBuckets (snd r) = httpTransferBuckets ex_st0)
   \<and> LogTransfer ex_cfg_off ''download'' 1 ex_st0 = ex_st0
   \<and> httpTransfers (snd (snd (Read ex_cfg_off 7 (''abc'', Some EOF)
                                (countingResponse 1 ex_resp, ex_st0))))
       = httpTransfers ex_st0"
proof -
  have h: "\<not> isLoggingStats ex_cfg_off"
    by (simp add: ex_cfg_off_def)
  have d: "\<exists>r. Do ex_cfg_off ex_lib 100 ex_tr_ok ex_orig ex_st0 = Inr r"
    by (simp add: Do_def Let_def ex_tr_ok_def)
  from no_registry_write_when_disabled
         [OF h, of ex_lib 100 ex_tr_ok ex_orig ex_st0 "''download''" 1 7 "''abc''"
            "countingResponse 1 ex_resp"] h d
  show ?thesis by blast
qed

subsection \<open>The counter and the record\<close>

lemma sint_of_nat_small:
  "n < 2 ^ 63 \<Longrightarrow> sint (of_nat n :: go_int) = int n"
  by (simp add: signed_of_nat signed_take_bit_int_eq_self)

lemma Read_result:
  "fst (Read cfg now x cs) = (of_nat (length (fst x)), snd x)"
  by (simp add: Read_def Let_def)

lemma Read_Count:
  "Count (fst (snd (Read cfg now x cs)))
     = (if snd x = None \<or> snd x = Some EOF then Count (fst cs) + of_nat (length (fst x))
        else Count (fst cs))"
  by (auto simp: Read_def Let_def)

lemma Read_present:
  "httpTransfers (snd cs) p = Some t \<Longrightarrow>
     \<exists>t'. httpTransfers (snd (snd (Read cfg now x cs))) p = Some t'"
  by (auto simp: Read_def Let_def split: option.splits)

lemma Reads_present:
  "httpTransfers (snd cs) p = Some t \<Longrightarrow>
     \<exists>t'. httpTransfers (snd (snd (Reads cfg xs cs))) p = Some t'"
proof (induction xs arbitrary: cs t)
  case Nil
  then show ?case by simp
next
  case (Cons x xs)
  from Read_present [OF Cons.prems, of cfg "fst x" "snd x"]
  obtain t1 where "httpTransfers (snd (snd (Read cfg (fst x) (snd x) cs))) p = Some t1"
    by blast
  from Cons.IH [OF this] show ?case by (simp add: Let_def)
qed

lemma Read_EOF_record:
  assumes "isLoggingStats cfg" and "response (fst cs) = Some p"
    and "httpTransfers (snd cs) p = Some t"
  shows "httpTransfers (snd (snd (Read cfg now (chunk, Some EOF) cs))) p
           = Some (t\<lparr>responseStats := (responseStats t)
                        \<lparr>BodySize := Count (fst cs) + of_nat (length chunk), Stop := now\<rparr>\<rparr>)"
  using assms by (simp add: Read_def Let_def)

lemma Reads_append:
  "Reads cfg (xs @ ys) cs
     = (fst (Reads cfg xs cs) @ fst (Reads cfg ys (snd (Reads cfg xs cs))),
        snd (Reads cfg ys (snd (Reads cfg xs cs))))"
  by (induction xs arbitrary: cs) (simp_all add: Let_def)

lemma Reads_results:
  "fst (Reads cfg xs cs) = map (\<lambda>x. (of_nat (length (fst (snd x))), snd (snd x))) xs"
  by (induction xs arbitrary: cs) (simp_all add: Let_def Read_result)

lemma Reads_Count:
  "Count (fst (snd (Reads cfg xs cs)))
     = Count (fst cs) + sum_list (map fst (filter counted (fst (Reads cfg xs cs))))"
  by (induction xs arbitrary: cs) (simp_all add: Let_def Read_Count Read_result counted_def)

lemma Do_opens_record:
  assumes "isLoggingStats cfg" and "t_err tr = None" and "t_res tr = Some (p, r)"
  shows "\<exists>st' t. Do cfg L start tr req st
                   = Inr ((Some p, Some (countingResponse p r), None), st')
           \<and> httpTransfers st' = (httpTransfers st)(p \<mapsto> t)
           \<and> httpTransferBuckets st' = httpTransferBuckets st
           \<and> BodySize (responseStats t) = 0
           \<and> Start (responseStats t) = start
           \<and> Stop (responseStats t) = 0"
  using assms
  by (auto simp: Do_def Let_def sent_registry traceHttpResponse_registry)

lemma ex_Do:
  "\<exists>st'. Do ex_cfg ex_lib 100 ex_tr_ok ex_orig ex_st0
           = Inr ((Some 1, Some (countingResponse 1 ex_resp), None), st')
         \<and> httpTransfers st' = httpTransfers ex_st1"
  by (simp add: Do_def Let_def ex_tr_ok_def ex_cfg_def ex_lib_def ex_orig_def ex_st0_def ex_st1_def ex_transfer_def
     traceHttpResponse_registry traceHttpRequest_registry countingRequest_def)

text \<open>
  Claim C5 says that the body size is the sum of the byte counts that all the reads
  returned. A read that returns bytes together with an error that is not end-of-stream
  returns before the counter is touched. Here the first read returns 2 bytes with such
  an error and the second 3 bytes with end-of-stream: the reads returned 5 bytes and
  the body size of the record is 3.
\<close>

theorem bytes_with_error_not_counted:
  "snd (snd (last ex_reads_err)) = Some EOF
   \<and> fst (Reads ex_cfg ex_reads_err (countingResponse 1 ex_resp, ex_st1))
       = [(2, Some (readError ''boom'')), (3, Some EOF)]
   \<and> sum_list (map fst (fst (Reads ex_cfg ex_reads_err (countingResponse 1 ex_resp, ex_st1))))
       = 5
   \<and> httpTransfers (snd (snd (Reads ex_cfg ex_reads_err (countingResponse 1 ex_resp, ex_st1)))) 1
       = Some (ex_transfer\<lparr>responseStats :=
                 (responseStats ex_transfer)\<lparr>BodySize := 3, Stop := 400\<rparr>\<rparr>)"
  by (simp add: ex_reads_err_def Let_def Read_def countingResponse_def ex_cfg_def ex_st1_def
        ex_st0_def)

text \<open>
  Claim C5, as the code has it. Statistics are on, the stream is the counting body of the
  response at \<open>p\<close>, fresh from \<open>countingResponse\<close>, and \<open>p\<close> has a record. After
  successive reads of which the last returns end-of-stream, the body size of the record
  is the sum of the byte counts of the reads that returned no error or end-of-stream
  (\<open>counted\<close>), whatever the other reads returned; when no read
  returned another error, that is the sum of the byte counts that all the reads
  returned. The sum is the one of the machine; below \<open>2 ^ 63\<close> bytes it is the number
  of bytes delivered. A read that returns bytes together with another error returns
  before the counter is touched, so its bytes are in no sum.
\<close>

theorem body_size_is_sum_of_reads:
  assumes "isLoggingStats cfg"
    and "httpTransfers st p = Some t"
    and "xs \<noteq> []"
    and "snd (snd (last xs)) = Some EOF"
  shows "\<exists>t'. httpTransfers (snd (snd (Reads cfg xs (countingResponse p r, st)))) p = Some t'
           \<and> BodySize (responseStats t')
               = sum_list (map fst (filter counted (fst (Reads cfg xs (countingResponse p r, st)))))
           \<and> ((\<forall>x \<in> set xs. snd (snd x) = None \<or> snd (snd x) = Some EOF) \<longrightarrow>
                BodySize (responseStats t')
                  = sum_list (map fst (fst (Reads cfg xs (countingResponse p r, st))))
                \<and> (sum_list (map (\<lambda>x. length (fst (snd x))) xs) < 2 ^ 63 \<longrightarrow>
                     sint (BodySize (responseStats t'))
                       = int (sum_list (map (\<lambda>x. length (fst (snd x))) xs))))"
proof -
  let ?c = "countingResponse p r"
  obtain ys y where xs: "xs = ys @ [y]"
    using assms(3) by (metis rev_exhaust)
  with assms(4) obtain now chunk where y: "y = (now, chunk, Some EOF)"
    by (cases y) auto
  let ?a = "Reads cfg ys (?c, st)"
  have resp: "response (fst (snd ?a)) = Some p"
    using Reads_response [of cfg ys "(?c, st)"] by (simp add: countingResponse_def)
  obtain t1 where t1: "httpTransfers (snd (snd ?a)) p = Some t1"
    using Reads_present [of "(?c, st)" p t cfg ys] assms(2) by auto
  let ?b = "Read cfg now (chunk, Some EOF) (snd ?a)"
  have fin: "snd (Reads cfg xs (?c, st)) = snd ?b"
    by (simp add: xs y Reads_append Let_def)
  let ?t' = "t1\<lparr>responseStats := (responseStats t1)
                 \<lparr>BodySize := Count (fst (snd ?a)) + of_nat (length chunk), Stop := now\<rparr>\<rparr>"
  have rec: "httpTransfers (snd (snd (Reads cfg xs (?c, st)))) p = Some ?t'"
    unfolding fin using Read_EOF_record [OF assms(1) resp t1] .
  have cnt: "Count (fst (snd (Reads cfg xs (?c, st))))
               = sum_list (map fst (filter counted (fst (Reads cfg xs (?c, st)))))"
    using Reads_Count [of cfg xs "(?c, st)"] by (simp add: countingResponse_def)
  have cnt': "Count (fst (snd (Reads cfg xs (?c, st))))
                = Count (fst (snd ?a)) + of_nat (length chunk)"
    unfolding fin by (simp add: Read_Count)
  have body: "BodySize (responseStats ?t')
                = sum_list (map fst (filter counted (fst (Reads cfg xs (?c, st)))))"
    using cnt cnt' by simp
  have all: "BodySize (responseStats ?t') = sum_list (map fst (fst (Reads cfg xs (?c, st))))
             \<and> (sum_list (map (\<lambda>x. length (fst (snd x))) xs) < 2 ^ 63 \<longrightarrow>
                  sint (BodySize (responseStats ?t'))
                    = int (sum_list (map (\<lambda>x. length (fst (snd x))) xs)))"
    if ok: "\<forall>x \<in> set xs. snd (snd x) = None \<or> snd (snd x) = Some EOF"
  proof -
    have "filter counted (fst (Reads cfg xs (?c, st))) = fst (Reads cfg xs (?c, st))"
      using ok by (auto simp: Reads_results counted_def filter_id_conv)
    with body have 1: "BodySize (responseStats ?t')
                         = sum_list (map fst (fst (Reads cfg xs (?c, st))))"
      by simp
    have "map fst (fst (Reads cfg xs (?c, st)))
            = map of_nat (map (\<lambda>x. length (fst (snd x))) xs)"
      by (simp add: Reads_results comp_def)
    with 1 have 2: "BodySize (responseStats ?t')
                      = of_nat (sum_list (map (\<lambda>x. length (fst (snd x))) xs))"
      by (simp only: sum_list_of_nat)
    have 3: "sum_list (map (\<lambda>x. length (fst (snd x))) xs) < 2 ^ 63 \<longrightarrow>
               sint (BodySize (responseStats ?t'))
                 = int (sum_list (map (\<lambda>x. length (fst (snd x))) xs))"
      unfolding 2 using sint_of_nat_small by blast
    from 1 3 show ?thesis by (rule conjI)
  qed
  from rec body all show ?thesis by blast
qed

theorem body_size_is_sum_of_reads_witness:
  "isLoggingStats ex_cfg \<and> httpTransfers ex_st1 1 = Some ex_transfer \<and> ex_reads \<noteq> []
   \<and> snd (snd (last ex_reads)) = Some EOF
   \<and> sum_list (map (\<lambda>x. length (fst (snd x))) ex_reads) < 2 ^ 63
   \<and> (\<exists>t'. httpTransfers (snd (snd (Reads ex_cfg ex_reads (countingResponse 1 ex_resp, ex_st1)))) 1
              = Some t'
         \<and> BodySize (responseStats t') = 5 \<and> sint (BodySize (responseStats t')) = 5)"
proof -
  have h1: "isLoggingStats ex_cfg" by (simp add: ex_cfg_def)
  have h2: "httpTransfers ex_st1 1 = Some ex_transfer" by (simp add: ex_st1_def)
  have h3: "ex_reads \<noteq> []" by (simp add: ex_reads_def)
  have h4: "snd (snd (last ex_reads)) = Some EOF" by (simp add: ex_reads_def)
  have h5: "\<forall>x \<in> set ex_reads. snd (snd x) = None \<or> snd (snd x) = Some EOF"
    by (simp add: ex_reads_def)
  have h6: "sum_list (map (\<lambda>x. length (fst (snd x))) ex_reads) < 2 ^ 63"
    by (simp add: ex_reads_def)
  have s: "sum_list (map (\<lambda>x. length (fst (snd x))) ex_reads) = 5"
    by (simp add: ex_reads_def)
  have r: "sum_list (map fst (fst (Reads ex_cfg ex_reads (countingResponse 1 ex_resp, ex_st1))))
             = 5"
    unfolding Reads_results by (simp add: ex_reads_def)
  from body_size_is_sum_of_reads [OF h1 h2 h3 h4, of ex_resp] h5 h6
  obtain t' where
    "httpTransfers (snd (snd (Reads ex_cfg ex_reads (countingResponse 1 ex_resp, ex_st1)))) 1
       = Some t'"
    and "BodySize (responseStats t')
           = sum_list (map fst (fst (Reads ex_cfg ex_reads (countingResponse 1 ex_resp, ex_st1))))"
    and "sint (BodySize (responseStats t'))
           = int (sum_list (map (\<lambda>x. length (fst (snd x))) ex_reads))"
    by blast
  with r s have "\<exists>t'. httpTransfers (snd (snd (Reads ex_cfg ex_reads
                                              (countingResponse 1 ex_resp, ex_st1)))) 1 = Some t'
                   \<and> BodySize (responseStats t') = 5 \<and> sint (BodySize (responseStats t')) = 5"
    by simp
  with h1 h2 h3 h4 h6 show ?thesis by blast
qed

subsection \<open>End-of-stream, again\<close>

text \<open>
  Claim C1 says that a read which returns end-of-stream after end-of-stream was already
  seen leaves the body size and the stop time of the record unchanged. \<open>Read\<close> has no
  memory of an earlier end-of-stream. Here the record of the response at address 1 is
  marked as done by a read at time 500; a second read at time 900 returns no byte and
  end-of-stream again, and the stop time of the record is 900.
\<close>

theorem repeated_EOF_moves_stop_time:
  "httpTransfers (snd (snd (Read ex_cfg 500 ([], Some EOF) (countingResponse 1 ex_resp, ex_st1)))) 1
     = Some (ex_transfer\<lparr>responseStats := (responseStats ex_transfer)\<lparr>BodySize := 0, Stop := 500\<rparr>\<rparr>)
   \<and> fst (Read ex_cfg 900 ([], Some EOF)
        (snd (Read ex_cfg 500 ([], Some EOF) (countingResponse 1 ex_resp, ex_st1))))
      = (0, Some EOF)
   \<and> httpTransfers (snd (snd (Read ex_cfg 900 ([], Some EOF)
        (snd (Read ex_cfg 500 ([], Some EOF) (countingResponse 1 ex_resp, ex_st1)))))) 1
     = Some (ex_transfer\<lparr>responseStats := (responseStats ex_transfer)\<lparr>BodySize := 0, Stop := 900\<rparr>\<rparr>)"
  by (simp add: Read_def Let_def countingResponse_def ex_cfg_def ex_st1_def ex_st0_def)

text \<open>
  Claim C1, as the code has it. With statistics on, a stream that has the response \<open>p\<close>
  and a record at \<open>p\<close>: a read that returns end-of-stream writes the counter of the
  stream and the time of that read into the record; a later read that returns no byte
  and end-of-stream again returns normally, leaves the body size and every other field
  as they were, and replaces the stop time by the time of that later read.
\<close>

theorem EOF_read_writes_record:
  assumes "isLoggingStats cfg" and "response c = Some p" and "httpTransfers st p = Some t"
  shows "\<exists>t1 t2.
           httpTransfers (snd (snd (Read cfg now1 (chunk, Some EOF) (c, st)))) p = Some t1
         \<and> BodySize (responseStats t1) = Count c + of_nat (length chunk)
         \<and> Stop (responseStats t1) = now1
         \<and> fst (Read cfg now2 ([], Some EOF) (snd (Read cfg now1 (chunk, Some EOF) (c, st))))
             = (0, Some EOF)
         \<and> httpTransfers (snd (snd (Read cfg now2 ([], Some EOF)
                             (snd (Read cfg now1 (chunk, Some EOF) (c, st)))))) p = Some t2
         \<and> t2 = t1\<lparr>responseStats := (responseStats t1)\<lparr>Stop := now2\<rparr>\<rparr>"
proof -
  let ?r1 = "Read cfg now1 (chunk, Some EOF) (c, st)"
  let ?t1 = "t\<lparr>responseStats := (responseStats t)
                 \<lparr>BodySize := Count c + of_nat (length chunk), Stop := now1\<rparr>\<rparr>"
  have 1: "httpTransfers (snd (snd ?r1)) p = Some ?t1"
    using Read_EOF_record [OF assms(1), of "(c, st)" p t now1 chunk] assms(2,3) by simp
  have resp: "response (fst (snd ?r1)) = Some p"
    using Read_response [of cfg now1 "(chunk, Some EOF)" "(c, st)"] assms(2) by simp
  have cnt: "Count (fst (snd ?r1)) = Count c + of_nat (length chunk)"
    by (simp add: Read_Count)
  have 2: "httpTransfers (snd (snd (Read cfg now2 ([], Some EOF) (snd ?r1)))) p
             = Some (?t1\<lparr>responseStats := (responseStats ?t1)\<lparr>Stop := now2\<rparr>\<rparr>)"
    using Read_EOF_record [OF assms(1) resp 1, of now2 "[]"] by (simp add: cnt)
  have 3: "fst (Read cfg now2 ([], Some EOF) (snd ?r1)) = (0, Some EOF)"
    by (simp add: Read_result)
  from 1 2 3 show ?thesis by simp
qed

theorem EOF_read_writes_record_witness:
  "isLoggingStats ex_cfg \<and> response (countingResponse 1 ex_resp) = Some 1
   \<and> httpTransfers ex_st1 1 = Some ex_transfer
   \<and> (\<exists>t1 t2.
         httpTransfers (snd (snd (Read ex_cfg 500 (''abc'', Some EOF)
                                    (countingResponse 1 ex_resp, ex_st1)))) 1 = Some t1
       \<and> BodySize (responseStats t1) = 3
       \<and> Stop (responseStats t1) = 500
       \<and> httpTransfers (snd (snd (Read ex_cfg 900 ([], Some EOF)
                           (snd (Read ex_cfg 500 (''abc'', Some EOF)
                                   (countingResponse 1 ex_resp, ex_st1)))))) 1 = Some t2
       \<and> BodySize (responseStats t2) = 3
       \<and> Stop (responseStats t2) = 900)"
proof -
  have h1: "isLoggingStats ex_cfg" by (simp add: ex_cfg_def)
  have h2: "response (countingResponse 1 ex_resp) = Some 1" by (simp add: countingResponse_def)
  have h3: "httpTransfers ex_st1 1 = Some ex_transfer" by (simp add: ex_st1_def)
  have c: "Count (countingResponse q r) = 0" for q r by (simp add: countingResponse_def)
  from EOF_read_writes_record [OF h1 h2 h3, of 500 "''abc''" 900]
  obtain t1 t2 where
    "httpTransfers (snd (snd (Read ex_cfg 500 (''abc'', Some EOF)
                                (countingResponse 1 ex_resp, ex_st1)))) 1 = Some t1"
    "BodySize (responseStats t1) = Count (countingResponse 1 ex_resp) + of_nat (length ''abc'')"
    "Stop (responseStats t1) = 500"
    "httpTransfers (snd (snd (Read ex_cfg 900 ([], Some EOF)
                        (snd (Read ex_cfg 500 (''abc'', Some EOF)
                                (countingResponse 1 ex_resp, ex_st1)))))) 1 = Some t2"
    "t2 = t1\<lparr>responseStats := (responseStats t1)\<lparr>Stop := 900\<rparr>\<rparr>"
    by blast
  then have "\<exists>t1 t2.
         httpTransfers (snd (snd (Read ex_cfg 500 (''abc'', Some EOF)
                                    (countingResponse 1 ex_resp, ex_st1)))) 1 = Some t1
       \<and> BodySize (responseStats t1) = 3
       \<and> Stop (responseStats t1) = 500
       \<and> httpTransfers (snd (snd (Read ex_cfg 900 ([], Some EOF)
                           (snd (Read ex_cfg 500 (''abc'', Some EOF)
                                   (countingResponse 1 ex_resp, ex_st1)))))) 1 = Some t2
       \<and> BodySize (responseStats t2) = 3
       \<and> Stop (responseStats t2) = 900"
    by (simp add: c)
  with h1 h2 h3 show ?thesis by blast
qed

subsection \<open>The redirect policy\<close>

lemma canon_Authorization:
  "CanonicalMIMEHeaderKey ''Authorization'' = ''Authorization''"
  by (simp add: CanonicalMIMEHeaderKey_def validHeaderFieldByte_def upperAZ_def lowerAZ_def
        toUpperByte_def toLowerByte_def Let_def)

lemma canon_Accept:
  "CanonicalMIMEHeaderKey ''Accept'' = ''Accept''"
  by (simp add: CanonicalMIMEHeaderKey_def validHeaderFieldByte_def upperAZ_def lowerAZ_def
        toUpperByte_def toLowerByte_def Let_def)

lemma canon_authorization:
  "CanonicalMIMEHeaderKey ''authorization'' = ''Authorization''"
  by (simp add: CanonicalMIMEHeaderKey_def validHeaderFieldByte_def upperAZ_def lowerAZ_def
        toUpperByte_def toLowerByte_def Let_def)

text \<open>\<open>Get\<close> sees a key through its canonical form only.\<close>

lemma Header_Get_canon:
  "CanonicalMIMEHeaderKey k = CanonicalMIMEHeaderKey k' \<Longrightarrow> Header_Get h k = Header_Get h k'"
  by (simp add: Header_Get_def)

text \<open>One turn of the loop, read at a key \<open>c\<close>.\<close>

lemma copyHeader_at:
  "copyHeader req oldest h a c
     = (if CanonicalMIMEHeaderKey a = c \<and> \<not> (a = ''Authorization'' \<and> cross_origin req oldest)
        then Some [Header_Get (Header oldest) a] else h c)"
  by (auto simp: copyHeader_def Header_Set_def)

text \<open>A key that no turn writes keeps its value.\<close>

lemma foldl_copyHeader_untouched:
  assumes "\<forall>k \<in> set ks. CanonicalMIMEHeaderKey k = c \<longrightarrow>
             k = ''Authorization'' \<and> cross_origin req oldest"
  shows "foldl (copyHeader req oldest) h ks c = h c"
  using assms
proof (induction ks arbitrary: h)
  case Nil
  then show ?case by simp
next
  case (Cons a ks)
  then have a: "CanonicalMIMEHeaderKey a = c \<longrightarrow> a = ''Authorization'' \<and> cross_origin req oldest"
    and ks: "\<forall>k \<in> set ks. CanonicalMIMEHeaderKey k = c \<longrightarrow>
               k = ''Authorization'' \<and> cross_origin req oldest"
    by simp_all
  have "foldl (copyHeader req oldest) h (a # ks) c
          = foldl (copyHeader req oldest) (copyHeader req oldest h a) ks c"
    by simp
  also have "\<dots> = copyHeader req oldest h a c"
    by (rule Cons.IH [OF ks])
  also have "\<dots> = h c"
    using a by (auto simp: copyHeader_at)
  finally show ?case .
qed

text \<open>A key that some turn writes holds the value \<open>Get\<close> gives for it, whichever turn
  wrote last.\<close>

lemma foldl_copyHeader_written:
  assumes "k \<in> set ks" and "\<not> (k = ''Authorization'' \<and> cross_origin req oldest)"
  shows "foldl (copyHeader req oldest) h ks (CanonicalMIMEHeaderKey k)
           = Some [Header_Get (Header oldest) k]"
  using assms
proof (induction ks arbitrary: h k)
  case Nil
  then show ?case by simp
next
  case (Cons a ks)
  let ?c = "CanonicalMIMEHeaderKey k"
  let ?h = "copyHeader req oldest h a"
  have unfold: "foldl (copyHeader req oldest) h (a # ks) ?c
                  = foldl (copyHeader req oldest) ?h ks ?c"
    by simp
  show ?case
  proof (cases "k \<in> set ks")
    case True
    from Cons.IH [OF True Cons.prems(2)] unfold show ?thesis by simp
  next
    case False
    with Cons.prems(1) have ka: "k = a" by simp
    show ?thesis
    proof (cases "\<exists>k' \<in> set ks. CanonicalMIMEHeaderKey k' = ?c
                     \<and> \<not> (k' = ''Authorization'' \<and> cross_origin req oldest)")
      case True
      then obtain k' where k': "k' \<in> set ks" "CanonicalMIMEHeaderKey k' = ?c"
        "\<not> (k' = ''Authorization'' \<and> cross_origin req oldest)"
        by blast
      from Cons.IH [OF k'(1) k'(3), of ?h] k'(2)
      have "foldl (copyHeader req oldest) ?h ks ?c = Some [Header_Get (Header oldest) k']"
        by simp
      also have "Header_Get (Header oldest) k' = Header_Get (Header oldest) k"
        by (rule Header_Get_canon [OF k'(2)])
      finally show ?thesis using unfold by simp
    next
      case False
      then have "\<forall>k' \<in> set ks. CanonicalMIMEHeaderKey k' = ?c \<longrightarrow>
                   k' = ''Authorization'' \<and> cross_origin req oldest"
        by blast
      from foldl_copyHeader_untouched [OF this, of ?h]
      have "foldl (copyHeader req oldest) ?h ks ?c = ?h ?c" .
      also have "\<dots> = Some [Header_Get (Header oldest) k]"
        using Cons.prems(2) by (simp add: copyHeader_at ka)
      finally show ?thesis using unfold by simp
    qed
  qed
qed

text \<open>
  Claim C2 says that after a hop to another scheme or host the new request carries no
  \<^verbatim>\<open>Authorization\<close> header, and that every other header of the original is copied. The
  loop only sets headers: it takes none away, it sets one value where the original may
  have several, and it tests the key as it is written in the map. Three hops that the
  policy allows: a new request that comes to another host with a credential keeps it;
  of the two values of \<^verbatim>\<open>Accept\<close> only the first arrives; and a credential under the key
  \<^verbatim>\<open>authorization\<close> passes the test on the key and leaves an \<^verbatim>\<open>Authorization\<close> header,
  with the empty value, on a request to another host.
\<close>

theorem cross_origin_credential_kept:
  "map_sum id (\<lambda>r. Header (fst (snd r)) ''Authorization'')
     (checkRedirect ex_lib [''Authorization'', ''Accept''] ex_hop_other_auth [ex_orig])
     = Inr (Some [''Basic abcd''])
   \<and> map_sum id (\<lambda>r. Header (fst (snd r)) ''Accept'')
       (checkRedirect ex_lib [''Accept''] ex_hop_same [ex_orig_multi])
     = Inr (Some [''application/json''])
   \<and> map_sum id (\<lambda>r. Header (fst (snd r)) ''Authorization'')
       (checkRedirect ex_lib [''authorization''] ex_hop_other [ex_orig_lower])
     = Inr (Some [[]])"
  by (simp add: checkRedirect_def Let_def copyHeader_at cross_origin_def ex_hop_other_auth_def
        ex_hop_other_def ex_hop_same_def ex_orig_def ex_orig_multi_def ex_orig_lower_def
        canon_Authorization canon_Accept canon_authorization Header_Get_def)

text \<open>
  Claim C2, as the code has it. For a hop that the policy allows and every order in
  which the loop may range over the keys of the original request: each key of the
  original, \<^verbatim>\<open>Authorization\<close> left out when scheme or host differ, is set on the new
  request under its canonical form, to the one value \<^verbatim>\<open>Get\<close> returns for it in the
  original (the first); every key of the new request that no such key is the canonical
  form of stays as the new request had it. With the keys of the original in canonical
  form: \<^verbatim>\<open>Authorization\<close> is the first value of the original when scheme and host are
  both those of the original and the original has the header, and is otherwise what
  the new request came with, so it is absent exactly when the request came without
  it; every other header of the original is on the new request with its first value.
\<close>

theorem redirect_header_propagation:
  assumes "via = oldest # rest" and "length via < 3"
    and "range_order (Header oldest) ks"
  shows "\<exists>req' tr. checkRedirect L ks req via = Inr (None, req', tr)
           \<and> (\<forall>k \<in> dom (Header oldest).
                 \<not> (k = ''Authorization'' \<and> cross_origin req oldest) \<longrightarrow>
                 Header req' (CanonicalMIMEHeaderKey k) = Some [Header_Get (Header oldest) k])
           \<and> (\<forall>c. (\<forall>k \<in> dom (Header oldest). CanonicalMIMEHeaderKey k = c \<longrightarrow>
                        k = ''Authorization'' \<and> cross_origin req oldest) \<longrightarrow>
                    Header req' c = Header req c)
           \<and> (canonical_keys (Header oldest) \<longrightarrow>
                 Header req' ''Authorization''
                   = (if \<not> cross_origin req oldest \<and> ''Authorization'' \<in> dom (Header oldest)
                      then Some [Header_Get (Header oldest) ''Authorization'']
                      else Header req ''Authorization'')
                 \<and> (\<forall>k \<in> dom (Header oldest). k \<noteq> ''Authorization'' \<longrightarrow>
                       Header req' k = Some [Header_Get (Header oldest) k]))"
proof -
  let ?h = "foldl (copyHeader req oldest) (Header req) ks"
  let ?req' = "req\<lparr>Header := ?h\<rparr>"
  have ks: "set ks = dom (Header oldest)"
    using assms(3) by (simp add: range_order_def)
  have run: "checkRedirect L ks req via
               = Inr (None, ?req',
                      [TraceRedirect (Method oldest)
                         (SplitN2_first (URL_String L (URL oldest)) (CHR ''?''))
                         (SplitN2_first (URL_String L (URL ?req')) (CHR ''?''))])"
    using assms(1,2) by (simp add: checkRedirect_def Let_def)
  have written: "Header ?req' (CanonicalMIMEHeaderKey k) = Some [Header_Get (Header oldest) k]"
    if "k \<in> dom (Header oldest)" and "\<not> (k = ''Authorization'' \<and> cross_origin req oldest)"
    for k
    using foldl_copyHeader_written [of k ks req oldest "Header req"] that ks by simp
  have untouched: "Header ?req' c = Header req c"
    if "\<forall>k \<in> dom (Header oldest). CanonicalMIMEHeaderKey k = c \<longrightarrow>
          k = ''Authorization'' \<and> cross_origin req oldest"
    for c
    using foldl_copyHeader_untouched [of ks c req oldest "Header req"] that ks by simp
  have canonical: "Header ?req' ''Authorization''
                     = (if \<not> cross_origin req oldest \<and> ''Authorization'' \<in> dom (Header oldest)
                        then Some [Header_Get (Header oldest) ''Authorization'']
                        else Header req ''Authorization'')
                   \<and> (\<forall>k \<in> dom (Header oldest). k \<noteq> ''Authorization'' \<longrightarrow>
                         Header ?req' k = Some [Header_Get (Header oldest) k])"
    if canon: "canonical_keys (Header oldest)"
  proof -
    have id: "CanonicalMIMEHeaderKey k = k" if "k \<in> dom (Header oldest)" for k
      using canon that by (simp add: canonical_keys_def)
    have auth: "Header ?req' ''Authorization''
                  = (if \<not> cross_origin req oldest \<and> ''Authorization'' \<in> dom (Header oldest)
                     then Some [Header_Get (Header oldest) ''Authorization'']
                     else Header req ''Authorization'')"
    proof (cases "\<not> cross_origin req oldest \<and> ''Authorization'' \<in> dom (Header oldest)")
      case True
      with written [of "''Authorization''"] show ?thesis
        by (simp add: canon_Authorization)
    next
      case False
      have "\<forall>k \<in> dom (Header oldest). CanonicalMIMEHeaderKey k = ''Authorization'' \<longrightarrow>
              k = ''Authorization'' \<and> cross_origin req oldest"
        using False id by auto
      from untouched [OF this] have "Header ?req' ''Authorization'' = Header req ''Authorization''" .
      with False show ?thesis by (simp only: if_False)
    qed
    have others: "Header ?req' k = Some [Header_Get (Header oldest) k]"
      if "k \<in> dom (Header oldest)" and "k \<noteq> ''Authorization''" for k
      using written [of k] that id [of k] by simp
    from auth others show ?thesis by blast
  qed
  show ?thesis
  proof (intro exI conjI impI ballI allI)
    show "checkRedirect L ks req via
               = Inr (None, ?req',
                      [TraceRedirect (Method oldest)
                         (SplitN2_first (URL_String L (URL oldest)) (CHR ''?''))
                         (SplitN2_first (URL_String L (URL ?req')) (CHR ''?''))])"
      by (rule run)
  next
    fix k assume "k \<in> dom (Header oldest)"
      and "\<not> (k = ''Authorization'' \<and> cross_origin req oldest)"
    then show "Header ?req' (CanonicalMIMEHeaderKey k) = Some [Header_Get (Header oldest) k]"
      by (rule written)
  next
    fix c assume "\<forall>k \<in> dom (Header oldest). CanonicalMIMEHeaderKey k = c \<longrightarrow>
                    k = ''Authorization'' \<and> cross_origin req oldest"
    then show "Header ?req' c = Header req c"
      by (rule untouched)
  next
    assume "canonical_keys (Header oldest)"
    from canonical [OF this]
    show "Header ?req' ''Authorization''
            = (if \<not> cross_origin req oldest \<and> ''Authorization'' \<in> dom (Header oldest)
               then Some [Header_Get (Header oldest) ''Authorization'']
               else Header req ''Authorization'')"
      by (rule conjunct1)
  next
    fix k assume "canonical_keys (Header oldest)" and "k \<in> dom (Header oldest)"
      and "k \<noteq> ''Authorization''"
    with canonical show "Header ?req' k = Some [Header_Get (Header oldest) k]"
      by blast
  qed
qed


lemma ex_orig_keys:
  "range_order (Header ex_orig) [''Accept'', ''Authorization'']"
  "canonical_keys (Header ex_orig)"
  by (auto simp: range_order_def canonical_keys_def ex_orig_def canon_Authorization canon_Accept
        split: if_splits)

theorem redirect_header_propagation_witness:
  "[ex_orig] = ex_orig # [] \<and> length [ex_orig] < 3
   \<and> range_order (Header ex_orig) [''Accept'', ''Authorization'']
   \<and> CanonicalMIMEHeaderKey ''Accept'' = ''Accept''
   \<and> CanonicalMIMEHeaderKey ''Authorization'' = ''Authorization''
   \<and> (\<exists>req' tr. checkRedirect ex_lib [''Accept'', ''Authorization''] ex_hop_other [ex_orig]
                   = Inr (None, req', tr)
          \<and> Header req' ''Authorization'' = None
          \<and> Header req' ''Accept'' = Some [''application/json''])
   \<and> (\<exists>req' tr. checkRedirect ex_lib [''Accept'', ''Authorization''] ex_hop_same [ex_orig]
                   = Inr (None, req', tr)
          \<and> Header req' ''Authorization'' = Some [''Basic abcd'']
          \<and> Header req' ''Accept'' = Some [''application/json''])"
proof -
  have h1: "[ex_orig] = ex_orig # []" and h2: "length [ex_orig] < 3" by simp_all
  note h3 = ex_orig_keys(1) and h4 = ex_orig_keys(2)
  have n: "Header ex_hop_other ''Authorization'' = None"
    "Header ex_hop_same ''Authorization'' = None"
    by (simp_all add: ex_hop_other_def ex_hop_same_def)
  have x: "cross_origin ex_hop_other ex_orig" "\<not> cross_origin ex_hop_same ex_orig"
    by (simp_all add: cross_origin_def ex_hop_other_def ex_hop_same_def ex_orig_def)
  have d: "''Authorization'' \<in> dom (Header ex_orig)" "''Accept'' \<in> dom (Header ex_orig)"
    by (simp_all add: ex_orig_def)
  have g: "Header_Get (Header ex_orig) ''Authorization'' = ''Basic abcd''"
    "Header_Get (Header ex_orig) ''Accept'' = ''application/json''"
    by (simp_all add: Header_Get_def canon_Authorization canon_Accept ex_orig_def)
  have ne: "''Accept'' \<noteq> ''Authorization''" by simp
  have "\<exists>req' tr. checkRedirect ex_lib [''Accept'', ''Authorization''] ex_hop_other [ex_orig]
                     = Inr (None, req', tr)
           \<and> (\<forall>k \<in> dom (Header ex_orig).
                 \<not> (k = ''Authorization'' \<and> cross_origin ex_hop_other ex_orig) \<longrightarrow>
                 Header req' (CanonicalMIMEHeaderKey k) = Some [Header_Get (Header ex_orig) k])
           \<and> (\<forall>c. (\<forall>k \<in> dom (Header ex_orig). CanonicalMIMEHeaderKey k = c \<longrightarrow>
                        k = ''Authorization'' \<and> cross_origin ex_hop_other ex_orig) \<longrightarrow>
                    Header req' c = Header ex_hop_other c)
           \<and> (canonical_keys (Header ex_orig) \<longrightarrow>
                 Header req' ''Authorization''
                   = (if \<not> cross_origin ex_hop_other ex_orig
                         \<and> ''Authorization'' \<in> dom (Header ex_orig)
                      then Some [Header_Get (Header ex_orig) ''Authorization'']
                      else Header ex_hop_other ''Authorization'')
                 \<and> (\<forall>k \<in> dom (Header ex_orig). k \<noteq> ''Authorization'' \<longrightarrow>
                       Header req' k = Some [Header_Get (Header ex_orig) k]))"
    by (rule redirect_header_propagation [OF h1 h2 h3])
  then obtain r1 t1 where
    r1: "checkRedirect ex_lib [''Accept'', ''Authorization''] ex_hop_other [ex_orig]
           = Inr (None, r1, t1)"
    and cr1: "canonical_keys (Header ex_orig) \<longrightarrow>
                 Header r1 ''Authorization''
                   = (if \<not> cross_origin ex_hop_other ex_orig
                         \<and> ''Authorization'' \<in> dom (Header ex_orig)
                      then Some [Header_Get (Header ex_orig) ''Authorization'']
                      else Header ex_hop_other ''Authorization'')
                 \<and> (\<forall>k \<in> dom (Header ex_orig). k \<noteq> ''Authorization'' \<longrightarrow>
                       Header r1 k = Some [Header_Get (Header ex_orig) k])"
    by (elim exE conjE)
  from cr1 h4 have br1: "Header r1 ''Authorization''
               = (if \<not> cross_origin ex_hop_other ex_orig
                     \<and> ''Authorization'' \<in> dom (Header ex_orig)
                  then Some [Header_Get (Header ex_orig) ''Authorization'']
                  else Header ex_hop_other ''Authorization'')
             \<and> (\<forall>k \<in> dom (Header ex_orig). k \<noteq> ''Authorization'' \<longrightarrow>
                   Header r1 k = Some [Header_Get (Header ex_orig) k])"
    by (rule mp)
  note a1 = conjunct1 [OF br1] and o1 = conjunct2 [OF br1]
  from a1 x(1) n(1) have a1': "Header r1 ''Authorization'' = None" by simp
  from o1 d(2) ne g(2) have o1': "Header r1 ''Accept'' = Some [''application/json'']" by simp
  have "\<exists>req' tr. checkRedirect ex_lib [''Accept'', ''Authorization''] ex_hop_same [ex_orig]
                     = Inr (None, req', tr)
           \<and> (\<forall>k \<in> dom (Header ex_orig).
                 \<not> (k = ''Authorization'' \<and> cross_origin ex_hop_same ex_orig) \<longrightarrow>
                 Header req' (CanonicalMIMEHeaderKey k) = Some [Header_Get (Header ex_orig) k])
           \<and> (\<forall>c. (\<forall>k \<in> dom (Header ex_orig). CanonicalMIMEHeaderKey k = c \<longrightarrow>
                        k = ''Authorization'' \<and> cross_origin ex_hop_same ex_orig) \<longrightarrow>
                    Header req' c = Header ex_hop_same c)
           \<and> (canonical_keys (Header ex_orig) \<longrightarrow>
                 Header req' ''Authorization''
                   = (if \<not> cross_origin ex_hop_same ex_orig
                         \<and> ''Authorization'' \<in> dom (Header ex_orig)
                      then Some [Header_Get (Header ex_orig) ''Authorization'']
                      else Header ex_hop_same ''Authorization'')
                 \<and> (\<forall>k \<in> dom (Header ex_orig). k \<noteq> ''Authorization'' \<longrightarrow>
                       Header req' k = Some [Header_Get (Header ex_orig) k]))"
    by (rule redirect_header_propagation [OF h1 h2 h3])
  then obtain r2 t2 where
    r2: "checkRedirect ex_lib [''Accept'', ''Authorization''] ex_hop_same [ex_orig]
           = Inr (None, r2, t2)"
    and cr2: "canonical_keys (Header ex_orig) \<longrightarrow>
                 Header r2 ''Authorization''
                   = (if \<not> cross_origin ex_hop_same ex_orig
                         \<and> ''Authorization'' \<in> dom (Header ex_orig)
                      then Some [Header_Get (Header ex_orig) ''Authorization'']
                      else Header ex_hop_same ''Authorization'')
                 \<and> (\<forall>k \<in> dom (Header ex_orig). k \<noteq> ''Authorization'' \<longrightarrow>
                       Header r2 k = Some [Header_Get (Header ex_orig) k])"
    by (elim exE conjE)
  from cr2 h4 have br2: "Header r2 ''Authorization''
               = (if \<not> cross_origin ex_hop_same ex_orig
                     \<and> ''Authorization'' \<in> dom (Header ex_orig)
                  then Some [Header_Get (Header ex_orig) ''Authorization'']
                  else Header ex_hop_same ''Authorization'')
             \<and> (\<forall>k \<in> dom (Header ex_orig). k \<noteq> ''Authorization'' \<longrightarrow>
                   Header r2 k = Some [Header_Get (Header ex_orig) k])"
    by (rule mp)
  note a2 = conjunct1 [OF br2] and o2 = conjunct2 [OF br2]
  from a2 x(2) d(1) g(1) have a2': "Header r2 ''Authorization'' = Some [''Basic abcd'']" by simp
  from o2 d(2) ne g(2) have o2': "Header r2 ''Accept'' = Some [''application/json'']" by simp
  from r1 a1' o1' have A: "\<exists>req' tr. checkRedirect ex_lib [''Accept'', ''Authorization'']
                                   ex_hop_other [ex_orig] = Inr (None, req', tr)
          \<and> Header req' ''Authorization'' = None
          \<and> Header req' ''Accept'' = Some [''application/json'']"
    by blast
  from r2 a2' o2' have B: "\<exists>req' tr. checkRedirect ex_lib [''Accept'', ''Authorization'']
                                   ex_hop_same [ex_orig] = Inr (None, req', tr)
          \<and> Header req' ''Authorization'' = Some [''Basic abcd'']
          \<and> Header req' ''Accept'' = Some [''application/json'']"
    by blast
  from h1 h2 h3 canon_Accept canon_Authorization A B show ?thesis by blast
qed

subsection \<open>The limit on redirects\<close>

text \<open>
  Claim C3 says that the policy allows the hop for every chain of length at most 3 and
  fails once 3 redirects were followed. The test of the policy is on the length of
  \<^verbatim>\<open>via\<close>, which holds the original request as well. With the original request and two
  redirects followed, \<^verbatim>\<open>via\<close> has length 3 and holds 2 redirects: the third redirect is
  refused.
\<close>

theorem third_redirect_refused:
  "length [ex_orig, ex_hop_same, ex_hop_same] \<le> 3
   \<and> checkRedirect ex_lib [''Accept'', ''Authorization''] ex_hop_other
        [ex_orig, ex_hop_same, ex_hop_same]
       = Inr (Some (errorString ''stopped after 3 redirects''), ex_hop_other, [])"
  by (simp add: checkRedirect_def)

text \<open>
  Claim C3, as the code has it. The policy returns the error \<^verbatim>\<open>stopped after 3 redirects\<close>
  if and only if \<^verbatim>\<open>via\<close>, the original request followed by the redirects already made,
  has 3 entries or more; with 1 or 2 entries it allows the hop; with 3 or more it
  returns the error with the new request as it came and no trace. The error is no
  error of the transport.
\<close>

theorem hop_limit:
  "((\<exists>r t. checkRedirect L ks req via
              = Inr (Some (errorString ''stopped after 3 redirects''), r, t))
      \<longleftrightarrow> 3 \<le> length via)
   \<and> (1 \<le> length via \<and> length via \<le> 2 \<longrightarrow>
        (\<exists>req' t. checkRedirect L ks req via = Inr (None, req', t)))
   \<and> (3 \<le> length via \<longrightarrow>
        checkRedirect L ks req via
          = Inr (Some (errorString ''stopped after 3 redirects''), req, []))
   \<and> (\<forall>m. errorString ''stopped after 3 redirects'' \<noteq> transportError m)"
  by (cases via) (auto simp: checkRedirect_def Let_def)

theorem hop_limit_witness:
  "1 \<le> length [ex_orig, ex_hop_same] \<and> length [ex_orig, ex_hop_same] \<le> 2
   \<and> (\<exists>req' t. checkRedirect ex_lib [''Accept'', ''Authorization''] ex_hop_other
                  [ex_orig, ex_hop_same] = Inr (None, req', t))
   \<and> 3 \<le> length [ex_orig, ex_hop_same, ex_hop_same]
   \<and> checkRedirect ex_lib [''Accept'', ''Authorization''] ex_hop_other
        [ex_orig, ex_hop_same, ex_hop_same]
       = Inr (Some (errorString ''stopped after 3 redirects''), ex_hop_other, [])"
proof -
  have h1: "1 \<le> length [ex_orig, ex_hop_same] \<and> length [ex_orig, ex_hop_same] \<le> 2"
    by simp
  have h2: "3 \<le> length [ex_orig, ex_hop_same, ex_hop_same]"
    by simp
  from hop_limit [of ex_lib "[''Accept'', ''Authorization'']" ex_hop_other
                     "[ex_orig, ex_hop_same]"] h1
  have a: "\<exists>req' t. checkRedirect ex_lib [''Accept'', ''Authorization''] ex_hop_other
                  [ex_orig, ex_hop_same] = Inr (None, req', t)"
    by blast
  from hop_limit [of ex_lib "[''Accept'', ''Authorization'']" ex_hop_other
                     "[ex_orig, ex_hop_same, ex_hop_same]"] h2
  have b: "checkRedirect ex_lib [''Accept'', ''Authorization''] ex_hop_other
        [ex_orig, ex_hop_same, ex_hop_same]
       = Inr (Some (errorString ''stopped after 3 redirects''), ex_hop_other, [])"
    by blast
  from h1 h2 a b show ?thesis by blast
qed

subsection \<open>Redaction in the trace\<close>

lemma ToLower_append: "ToLower (a @ b) = ToLower a @ ToLower b"
  by (simp add: ToLower_def)

lemma redacted_prefix:
  assumes "ToLower name = ''authorization''" and "ToLower (take 5 v) = ''basic''"
  shows "HasPrefix (ToLower (name @ '': '' @ v)) ''authorization: basic''"
proof -
  have "ToLower v = ToLower (take 5 v) @ ToLower (drop 5 v)"
    by (simp flip: ToLower_append)
  then have "ToLower (name @ '': '' @ v)
               = ''authorization: basic'' @ ToLower (drop 5 v)"
    using assms
    by (simp add: ToLower_append) (simp add: ToLower_def toLowerByte_def upperAZ_def lowerAZ_def)
  then show ?thesis
    by (simp only: HasPrefix_def prefixI)
qed

text \<open>
  Claim C4. Let line \<open>i\<close> of a dump be a header line \<open>name: v\<close> whose name is
  \<^verbatim>\<open>Authorization\<close> in any case of letters and whose value starts with \<^verbatim>\<open>Basic\<close> in any
  case of letters. What \<open>traceHttpDump\<close> writes for it is, with \<^verbatim>\<open>isDebuggingHttp\<close> false,
  the direction followed by \<^verbatim>\<open> Authorization: Basic * * * * *\<close>, a text in which
  nothing of \<open>v\<close> is left; with \<^verbatim>\<open>isDebuggingHttp\<close> true, the direction followed by the
  line as it is.
\<close>

theorem basic_credential_redacted:
  assumes "i < length (scanLines [] dump)"
    and "scanLines [] dump ! i = name @ '': '' @ v"
    and "ToLower name = ''authorization''"
    and "ToLower (take 5 v) = ''basic''"
  shows "stderr (traceHttpDump cfg d dump st) ! (length (stderr st) + i)
           = (if isDebuggingHttp cfg
              then d @ '' '' @ name @ '': '' @ v @ [CHR 0x0A]
              else d @ '' Authorization: Basic * * * * *'' @ [CHR 0x0A])"
  using assms redacted_prefix [OF assms(3,4)]
  by (simp add: traceHttpDump_def traceLine_def nth_append)

lemma ex_dump_lines:
  "scanLines [] ex_dump
     = [''GET /a HTTP/1.1'', ''Host: host'', ''Authorization: Basic abcd'', []]"
  by (simp add: ex_dump_def MaxScanTokenSize_def dropCR_def)

lemma ex_lower:
  "ToLower ''Authorization'' = ''authorization''"
  "ToLower (take 5 ''Basic abcd'') = ''basic''"
  by (simp_all add: ToLower_def toLowerByte_def upperAZ_def lowerAZ_def)

theorem basic_credential_redacted_witness:
  "2 < length (scanLines [] ex_dump)
   \<and> scanLines [] ex_dump ! 2 = ''Authorization'' @ '': '' @ ''Basic abcd''
   \<and> ToLower ''Authorization'' = ''authorization''
   \<and> ToLower (take 5 ''Basic abcd'') = ''basic''
   \<and> stderr (traceHttpDump ex_cfg ''>'' ex_dump ex_st0) ! (length (stderr ex_st0) + 2)
       = ''> Authorization: Basic * * * * *'' @ [CHR 0x0A]
   \<and> stderr (traceHttpDump (ex_cfg\<lparr>isDebuggingHttp := True\<rparr>) ''>'' ex_dump ex_st0)
         ! (length (stderr ex_st0) + 2)
       = ''> Authorization: Basic abcd'' @ [CHR 0x0A]"
proof -
  have h1: "2 < length (scanLines [] ex_dump)"
    by (simp add: ex_dump_lines)
  have h2: "scanLines [] ex_dump ! 2 = ''Authorization'' @ '': '' @ ''Basic abcd''"
    by (simp add: ex_dump_lines)
  note h3 = ex_lower(1) and h4 = ex_lower(2)
  have f: "\<not> isDebuggingHttp ex_cfg" "isDebuggingHttp (ex_cfg\<lparr>isDebuggingHttp := True\<rparr>)"
    by (simp_all add: ex_cfg_def)
  from basic_credential_redacted [OF h1 h2 h3 h4, of ex_cfg "''>''" ex_st0] f(1)
  have a: "stderr (traceHttpDump ex_cfg ''>'' ex_dump ex_st0) ! (length (stderr ex_st0) + 2)
       = ''> Authorization: Basic * * * * *'' @ [CHR 0x0A]"
    by simp
  from basic_credential_redacted
         [OF h1 h2 h3 h4, of "ex_cfg\<lparr>isDebuggingHttp := True\<rparr>" "''>''" ex_st0] f(2)
  have b: "stderr (traceHttpDump (ex_cfg\<lparr>isDebuggingHttp := True\<rparr>) ''>'' ex_dump ex_st0)
         ! (length (stderr ex_st0) + 2)
       = ''> Authorization: Basic abcd'' @ [CHR 0x0A]"
    by simp
  from h1 h2 h3 h4 a b show ?thesis by blast
qed

subsection \<open>The report\<close>

lemma bucketLines_ok:
  assumes "\<forall>p \<in> set ps. p \<in> dom T \<and> p \<in> dom heap"
  shows "bucketLines L T heap key ps
           = Inr (map (\<lambda>p. transferLine L key (the (T p)) (the (heap p))) ps)"
  using assms by (induction ps) auto

lemma bucketLines_panic:
  "(\<exists>x. bucketLines L T heap key ps = Inl x)
     \<longleftrightarrow> (\<exists>p \<in> set ps. T p = None \<or> heap p = None)"
  by (induction ps) (auto split: option.splits sum.splits)

lemma bucketLines_Inl:
  "bucketLines L T heap key ps = Inl x \<Longrightarrow> x = NilDereference"
  by (induction ps) (auto split: option.splits sum.splits)

lemma allLines_ok:
  assumes "\<forall>key \<in> set ks. \<forall>p \<in> set (bucket st key).
             p \<in> dom (httpTransfers st) \<and> p \<in> dom heap"
  shows "allLines L st heap ks
           = Inr (concat (map (\<lambda>key. map (\<lambda>p. transferLine L key (the (httpTransfers st p))
                                                 (the (heap p)))
                                       (bucket st key)) ks))"
  using assms
proof (induction ks)
  case Nil
  then show ?case by simp
next
  case (Cons key ks)
  then have 1: "\<forall>p \<in> set (bucket st key). p \<in> dom (httpTransfers st) \<and> p \<in> dom heap"
    and 2: "\<forall>key \<in> set ks. \<forall>p \<in> set (bucket st key).
              p \<in> dom (httpTransfers st) \<and> p \<in> dom heap"
    by simp_all
  show ?case
    using bucketLines_ok [OF 1, of L key] Cons.IH [OF 2] by simp
qed

lemma allLines_panic:
  "(\<exists>x. allLines L st heap ks = Inl x)
     \<longleftrightarrow> (\<exists>key \<in> set ks. \<exists>p \<in> set (bucket st key).
            httpTransfers st p = None \<or> heap p = None)"
proof (induction ks)
  case Nil
  then show ?case by simp
next
  case (Cons key ks)
  show ?case
    using bucketLines_panic [of L "httpTransfers st" heap key "bucket st key"] Cons.IH
    by (auto split: sum.splits)
qed

lemma allLines_Inl:
  "allLines L st heap ks = Inl x \<Longrightarrow> x = NilDereference"
  by (induction ks) (auto split: sum.splits dest: bucketLines_Inl)

lemma bucket_LogTransfer:
  "isLoggingStats cfg \<Longrightarrow> bucket (LogTransfer cfg key p st) key = bucket st key @ [p]"
  by (simp add: LogTransfer_def bucket_def)

lemma in_bucket_iff:
  "p \<in> set (bucket st key) \<longleftrightarrow> (\<exists>ps. httpTransferBuckets st key = Some ps \<and> p \<in> set ps)"
  by (cases "httpTransferBuckets st key") (simp_all add: bucket_def)

text \<open>
  Claim C6 says that the report takes the buckets in the order in which they were first
  inserted. The buckets are a Go map, and the loop of the report ranges over it: the
  order is the one the runtime picks. Here \<^verbatim>\<open>upload\<close> is inserted before \<^verbatim>\<open>download\<close>; the
  order \<^verbatim>\<open>download\<close>, \<^verbatim>\<open>upload\<close> is one a range over the map may take, and the report
  then has the line of \<^verbatim>\<open>download\<close> first.
\<close>

theorem report_not_in_insertion_order:
  "range_order
     (httpTransferBuckets (LogTransfer ex_cfg ''download'' 2 (LogTransfer ex_cfg ''upload'' 1 ex_st2)))
     [''download'', ''upload'']
   \<and> map_sum id snd
        (LogHttpStats ex_cfg ex_lib ex_env ex_heap [''download'', ''upload'']
           (LogTransfer ex_cfg ''download'' 2 (LogTransfer ex_cfg ''upload'' 1 ex_st2)))
       = Inr (Some [SummaryLine 3 True 1446000000 ''1.0.0'',
                    TransferLine ''download'' 31 0 19 0 (- 100) 200 ''https://host/a?token=1'',
                    TransferLine ''upload'' 31 0 19 5 400 200 ''https://host/a?token=1''])"
  by (auto simp: range_order_def LogTransfer_def bucket_def LogHttpStats_def ex_cfg_def ex_env_def
        ex_st2_def ex_st0_def ex_heap_def ex_lib_def ex_resp_def ex_orig_def transferLine_def
        ex_transfer_def ex_transfer_done_def Sub_def split: if_splits)

text \<open>
  Claim C6, as the code has it. Statistics are on, the log file could be made, and every
  response in a bucket has a record and is a response. For the order \<open>ks\<close> in which the
  loop ranges over the map, whatever it is, the file holds the line of the settings and
  then, bucket after bucket in that order, one line for each response of the bucket in
  the order of the slice. \<open>LogTransfer\<close> appends to the slice, so this is the order of
  the insertions into the bucket. Nothing is asked of the record: one that was never
  marked as done gives its line like any other.
\<close>

theorem report_lines:
  assumes "isLoggingStats cfg" and "statsLogFile E = Inr name"
    and "range_order (httpTransferBuckets st) ks"
    and "\<forall>key. \<forall>p \<in> set (bucket st key). p \<in> dom (httpTransfers st) \<and> p \<in> dom heap"
  shows "(\<exists>st'. LogHttpStats cfg L E heap ks st
                 = Inr (st', Some (SummaryLine (ConcurrentTransfers E) (BatchTransfer E)
                                     (unixNow E) (Version E)
                                   # concat (map (\<lambda>key. map (\<lambda>p. transferLine L key
                                                                  (the (httpTransfers st p))
                                                                  (the (heap p)))
                                                         (bucket st key)) ks))))
         \<and> bucket (LogTransfer cfg key' p' st) key' = bucket st key' @ [p']"
  using assms allLines_ok [of ks st heap L] bucket_LogTransfer [of cfg key' p' st]
  by (simp add: LogHttpStats_def)

theorem report_lines_witness:
  "isLoggingStats ex_cfg \<and> statsLogFile ex_env = Inr ''http-1446000000.log''
   \<and> range_order (httpTransferBuckets (LogTransfer ex_cfg ''download'' 2 ex_st2)) [''download'']
   \<and> bucket (LogTransfer ex_cfg ''download'' 2 ex_st2) ''download'' = [2]
   \<and> 2 \<in> dom (httpTransfers (LogTransfer ex_cfg ''download'' 2 ex_st2)) \<and> 2 \<in> dom ex_heap
   \<and> Stop (responseStats (the (httpTransfers (LogTransfer ex_cfg ''download'' 2 ex_st2) 2))) = 0
   \<and> (\<exists>st'. LogHttpStats ex_cfg ex_lib ex_env ex_heap [''download'']
               (LogTransfer ex_cfg ''download'' 2 ex_st2)
              = Inr (st', Some [SummaryLine 3 True 1446000000 ''1.0.0'',
                                TransferLine ''download'' 31 0 19 0 (- 100) 200
                                  ''https://host/a?token=1'']))"
proof -
  let ?st = "LogTransfer ex_cfg ''download'' 2 ex_st2"
  have h1: "isLoggingStats ex_cfg" by (simp add: ex_cfg_def)
  have h2: "statsLogFile ex_env = Inr ''http-1446000000.log''" by (simp add: ex_env_def)
  have h3: "range_order (httpTransferBuckets ?st) [''download'']"
    by (simp add: range_order_def LogTransfer_def ex_cfg_def ex_st2_def ex_st0_def)
  have b: "bucket ?st key = (if key = ''download'' then [2] else [])" for key
    by (simp add: LogTransfer_def bucket_def ex_cfg_def ex_st2_def ex_st0_def)
  have h4: "\<forall>key. \<forall>p \<in> set (bucket ?st key). p \<in> dom (httpTransfers ?st) \<and> p \<in> dom ex_heap"
    by (simp add: b) (simp add: LogTransfer_def ex_cfg_def ex_st2_def ex_st0_def ex_heap_def)
  have h5: "Stop (responseStats (the (httpTransfers ?st 2))) = 0"
    by (simp add: LogTransfer_def ex_cfg_def ex_st2_def ex_st0_def ex_transfer_def)
  have l: "concat (map (\<lambda>key. map (\<lambda>p. transferLine ex_lib key (the (httpTransfers ?st p))
                                         (the (ex_heap p)))
                                (bucket ?st key)) [''download''])
             = [TransferLine ''download'' 31 0 19 0 (- 100) 200 ''https://host/a?token=1'']"
    by (simp add: b) (simp add: LogTransfer_def ex_cfg_def ex_st2_def ex_st0_def ex_heap_def
          transferLine_def ex_transfer_def ex_resp_def ex_orig_def ex_lib_def Sub_def)
  have e: "ConcurrentTransfers ex_env = 3" "BatchTransfer ex_env = True" "unixNow ex_env = 1446000000"
    "Version ex_env = ''1.0.0''"
    by (simp_all add: ex_env_def)
  from report_lines [OF h1 h2 h3 h4, of ex_lib]
  have "\<exists>st'. LogHttpStats ex_cfg ex_lib ex_env ex_heap [''download''] ?st
              = Inr (st', Some [SummaryLine 3 True 1446000000 ''1.0.0'',
                                TransferLine ''download'' 31 0 19 0 (- 100) 200
                                  ''https://host/a?token=1''])"
    unfolding l e by simp
  moreover have "bucket ?st ''download'' = [2]"
    by (simp add: b)
  moreover have "2 \<in> dom (httpTransfers ?st) \<and> 2 \<in> dom ex_heap"
    by (simp add: LogTransfer_def ex_cfg_def ex_st2_def ex_st0_def ex_heap_def)
  ultimately show ?thesis using h1 h2 h3 h5 by blast
qed

text \<open>
  Claim C10. The report looks the record of a response up and reads through it with no
  test. With statistics on and the log file made, it panics on a nil pointer if and
  only if some response of some bucket has no record. (Every response with a record is
  taken to be a response in memory, as \<open>Do\<close> only records responses it was given.)
  Such an input exists: a response put into a bucket that \<open>Do\<close> never saw.
\<close>

theorem report_panics_iff_record_missing:
  assumes "isLoggingStats cfg" and "statsLogFile E = Inr name"
    and "range_order (httpTransferBuckets st) ks"
    and "dom (httpTransfers st) \<subseteq> dom heap"
  shows "LogHttpStats cfg L E heap ks st = Inl NilDereference
           \<longleftrightarrow> (\<exists>key ps p. httpTransferBuckets st key = Some ps \<and> p \<in> set ps
                            \<and> httpTransfers st p = None)"
proof -
  have ks: "set ks = dom (httpTransferBuckets st)"
    using assms(3) by (simp add: range_order_def)
  have "LogHttpStats cfg L E heap ks st = Inl NilDereference
          \<longleftrightarrow> (\<exists>x. allLines L st heap ks = Inl x)"
    using assms(1,2) by (auto simp: LogHttpStats_def split: sum.splits dest: allLines_Inl)
  also have "\<dots> \<longleftrightarrow> (\<exists>key \<in> set ks. \<exists>p \<in> set (bucket st key).
                        httpTransfers st p = None \<or> heap p = None)"
    by (rule allLines_panic)
  also have "\<dots> \<longleftrightarrow> (\<exists>key \<in> set ks. \<exists>p \<in> set (bucket st key). httpTransfers st p = None)"
    using assms(4) by (meson domIff subsetD)
  also have "\<dots> \<longleftrightarrow> (\<exists>key ps p. httpTransferBuckets st key = Some ps \<and> p \<in> set ps
                            \<and> httpTransfers st p = None)"
    (is "?A \<longleftrightarrow> ?B")
  proof
    assume ?A
    then obtain key p where "p \<in> set (bucket st key)" and none: "httpTransfers st p = None"
      by blast
    then obtain ps where "httpTransferBuckets st key = Some ps" and "p \<in> set ps"
      unfolding in_bucket_iff by blast
    with none show ?B by blast
  next
    assume ?B
    then obtain key ps p where b: "httpTransferBuckets st key = Some ps" and p: "p \<in> set ps"
      and none: "httpTransfers st p = None"
      by blast
    from b have "key \<in> set ks"
      unfolding ks by (rule domI)
    moreover from b p have "p \<in> set (bucket st key)"
      unfolding in_bucket_iff by blast
    ultimately show ?A using none by blast
  qed
  finally show ?thesis .
qed

theorem report_panics_iff_record_missing_witness:
  "isLoggingStats ex_cfg \<and> statsLogFile ex_env = Inr ''http-1446000000.log''
   \<and> range_order (httpTransferBuckets (LogTransfer ex_cfg ''download'' 7 ex_st0)) [''download'']
   \<and> dom (httpTransfers (LogTransfer ex_cfg ''download'' 7 ex_st0)) = {}
   \<and> httpTransferBuckets (LogTransfer ex_cfg ''download'' 7 ex_st0) ''download'' = Some [7]
   \<and> httpTransfers (LogTransfer ex_cfg ''download'' 7 ex_st0) 7 = None
   \<and> LogHttpStats ex_cfg ex_lib ex_env ex_heap [''download'']
        (LogTransfer ex_cfg ''download'' 7 ex_st0) = Inl NilDereference"
proof -
  let ?st = "LogTransfer ex_cfg ''download'' 7 ex_st0"
  have h1: "isLoggingStats ex_cfg" by (simp add: ex_cfg_def)
  have h2: "statsLogFile ex_env = Inr ''http-1446000000.log''" by (simp add: ex_env_def)
  have h3: "range_order (httpTransferBuckets ?st) [''download'']"
    by (simp add: range_order_def LogTransfer_def ex_cfg_def ex_st0_def)
  have h4: "dom (httpTransfers ?st) \<subseteq> dom ex_heap"
    by (simp add: LogTransfer_def ex_cfg_def ex_st0_def)
  have b: "httpTransferBuckets ?st ''download'' = Some [7]"
    by (simp add: LogTransfer_def bucket_def ex_cfg_def ex_st0_def)
  have t: "httpTransfers ?st 7 = None"
    by (simp add: LogTransfer_def ex_cfg_def ex_st0_def)
  have "\<exists>key ps p. httpTransferBuckets ?st key = Some ps \<and> p \<in> set ps
                     \<and> httpTransfers ?st p = None"
    using b t by (intro exI [of _ "''download''"] exI [of _ "[7]"] exI [of _ 7]) simp
  with report_panics_iff_record_missing [OF h1 h2 h3 h4, of ex_lib]
  have "LogHttpStats ex_cfg ex_lib ex_env ex_heap [''download''] ?st = Inl NilDereference"
    by blast
  moreover have "dom (httpTransfers ?st) = {}"
    by (simp add: LogTransfer_def ex_cfg_def ex_st0_def)
  ultimately show ?thesis using h1 h2 h3 b t by blast
qed

end
